theory Spec2Isabelle
  imports Main "HOL-Library.AList" "HOL-Library.List_Lexorder" "HOL-Library.Char_ord"
begin

section \<open>Values, exceptions and the Python runtime\<close>

text \<open>
  The scripts work on the values \<^verbatim>\<open>json.loads\<close> produces. A JSON object is a Python
  \<^verbatim>\<open>dict\<close>, which keeps its keys in insertion order: it is an association list here,
  read with \<^const>\<open>map_of\<close> and written with \<^const>\<open>AList.update\<close> (which keeps the
  position of a key that is already there and appends a new key at the end, as
  \<^verbatim>\<open>d[k] = v\<close> does). JSON numbers are the integers; numbers with a fraction or an
  exponent (Python floats) are not represented. A string is a list of characters, and
  strings are ordered lexicographically by character code, as Python orders them by code
  point.
\<close>

datatype json =
    JNull
  | JBool bool
  | JInt int
  | JStr string
  | JArr "json list"
  | JObj "(string \<times> json) list"

text \<open>
  \<^verbatim>\<open>wmn_exceptions.py\<close>: the five domain errors below \<^verbatim>\<open>WMNError\<close>, and the
  built-in exceptions the scripts can run into. Messages are not modelled.
\<close>

datatype exn =
    WMNFileError
  | WMNValidationError
  | WMNFormatError
  | WMNSchemaError
  | WMNHashError
  | AttributeError
  | TypeError
  | KeyError
  | IndexError
  | ValueError

fun is_WMNError :: "exn \<Rightarrow> bool" where
  "is_WMNError WMNFileError = True"
| "is_WMNError WMNValidationError = True"
| "is_WMNError WMNFormatError = True"
| "is_WMNError WMNSchemaError = True"
| "is_WMNError WMNHashError = True"
| "is_WMNError AttributeError = False"
| "is_WMNError TypeError = False"
| "is_WMNError KeyError = False"
| "is_WMNError IndexError = False"
| "is_WMNError ValueError = False"

text \<open>
  The library functions the scripts call and do not define: \<^verbatim>\<open>str.casefold\<close>,
  \<^verbatim>\<open>str.strip\<close>, \<^verbatim>\<open>repr\<close> of a value that is not a string, \<^verbatim>\<open>json.dumps\<close>
  with the fixed indent (\<open>None\<close> when the value is not serializable), \<^verbatim>\<open>json.loads\<close>
  (\<open>None\<close> on a \<^verbatim>\<open>JSONDecodeError\<close>), whether a text encodes as UTF-8, and the
  SHA-256 hex digest of its encoding. Every function below takes them as a record.
\<close>

record runtime =
  casefold :: "string \<Rightarrow> string"
  strip :: "string \<Rightarrow> string"
  repr :: "json \<Rightarrow> string"
  json_dumps :: "json \<Rightarrow> string option"
  json_loads :: "string \<Rightarrow> json option"
  utf8_encodable :: "string \<Rightarrow> bool"
  sha256_hexdigest :: "string \<Rightarrow> string"

text \<open>\<^verbatim>\<open>wmn_constants.py\<close>\<close>

definition DEFAULT_DATA :: string where "DEFAULT_DATA = ''wmn-data.json''"

definition DEFAULT_SCHEMA :: string where "DEFAULT_SCHEMA = ''wmn-data-schema.json''"

definition HASH_FILE_EXTENSION :: string where "HASH_FILE_EXTENSION = ''.sha256''"

definition SITES_KEY :: string where "SITES_KEY = ''sites''"

definition NAME_KEY :: string where "NAME_KEY = ''name''"

definition AUTHORS_KEY :: string where "AUTHORS_KEY = ''authors''"

definition CATEGORIES_KEY :: string where "CATEGORIES_KEY = ''categories''"

definition HEADERS_KEY :: string where "HEADERS_KEY = ''headers''"

definition PROPERTIES_KEY :: string where "PROPERTIES_KEY = ''properties''"

definition ITEMS_KEY :: string where "ITEMS_KEY = ''items''"

section \<open>The file system\<close>

text \<open>
  A path names one of these. Reading distinguishes the four failures
  \<^verbatim>\<open>read_file_content\<close> handles, writing the five \<^verbatim>\<open>write_file_content\<close> handles.
  \<^verbatim>\<open>Path.write_text\<close> opens the file for writing, which empties it, before it encodes
  the text: a text that does not encode leaves an empty file behind.
\<close>

type_synonym path = string

datatype fnode =
    Absent             \<comment> \<open>no such file; its directory exists\<close>
  | NoParent           \<comment> \<open>no such file, and no directory to create it in\<close>
  | Directory
  | Text string        \<comment> \<open>a regular file holding UTF-8 text\<close>
  | Binary             \<comment> \<open>a regular file whose bytes are not UTF-8\<close>
  | Locked             \<comment> \<open>neither readable nor writable for this process\<close>
  | ReadOnly string    \<comment> \<open>readable text, no permission to write\<close>
  | Frozen string      \<comment> \<open>readable text on a device that refuses writes\<close>

datatype read_error =
  FileNotFoundError_r | IsADirectoryError_r | PermissionError_r | UnicodeDecodeError_r

datatype write_error =
  FileNotFoundError_w | IsADirectoryError_w | PermissionError_w | UnicodeEncodeError_w | OSError_w

fun read_text :: "fnode \<Rightarrow> read_error + string" where
  "read_text Absent = Inl FileNotFoundError_r"
| "read_text NoParent = Inl FileNotFoundError_r"
| "read_text Directory = Inl IsADirectoryError_r"
| "read_text (Text s) = Inr s"
| "read_text Binary = Inl UnicodeDecodeError_r"
| "read_text Locked = Inl PermissionError_r"
| "read_text (ReadOnly s) = Inr s"
| "read_text (Frozen s) = Inr s"

text \<open>The error of opening a node for writing, if any.\<close>

fun open_w :: "fnode \<Rightarrow> write_error option" where
  "open_w Absent = None"
| "open_w NoParent = Some FileNotFoundError_w"
| "open_w Directory = Some IsADirectoryError_w"
| "open_w (Text s) = None"
| "open_w Binary = None"
| "open_w Locked = Some PermissionError_w"
| "open_w (ReadOnly s) = Some PermissionError_w"
| "open_w (Frozen s) = Some OSError_w"

definition write_text ::
  "runtime \<Rightarrow> (path \<Rightarrow> fnode) \<Rightarrow> path \<Rightarrow> string \<Rightarrow> write_error option \<times> (path \<Rightarrow> fnode)" where
  "write_text E d p content =
     (case open_w (d p) of
        Some e \<Rightarrow> (Some e, d)
      | None \<Rightarrow>
          if utf8_encodable E content then (None, d(p := Text content))
          else (Some UnicodeEncodeError_w, d(p := Text [])))"

section \<open>\<^verbatim>\<open>wmn_base.py\<close>: paths, caches and IO\<close>

text \<open>
  The object's fields (the logger apart), the disk, and the log of the writes that
  completed, oldest first. A cache field is \<open>None\<close> as in the source; a parsed value that
  is JSON \<^verbatim>\<open>null\<close> is the same \<^verbatim>\<open>None\<close> and is parsed again on the next access.
\<close>

record wmn =
  data_path :: path
  schema_path :: path
  cached_data :: "json option"
  cached_schema :: "json option"
  cached_data_raw :: "string option"
  cached_schema_raw :: "string option"
  disk :: "path \<Rightarrow> fnode"
  write_log :: "(path \<times> string) list"

fun to_cache :: "json \<Rightarrow> json option" where
  "to_cache JNull = None"
| "to_cache v = Some v"

definition read_file_content :: "wmn \<Rightarrow> path \<Rightarrow> exn + string" where
  "read_file_content st file_path =
     (case read_text (disk st file_path) of
        Inl FileNotFoundError_r \<Rightarrow> Inl WMNFileError
      | Inl IsADirectoryError_r \<Rightarrow> Inl WMNFileError
      | Inl PermissionError_r \<Rightarrow> Inl WMNFileError
      | Inl UnicodeDecodeError_r \<Rightarrow> Inl WMNFileError
      | Inr s \<Rightarrow> Inr s)"

definition parse_json_data :: "runtime \<Rightarrow> string \<Rightarrow> exn + json" where
  "parse_json_data E raw =
     (case json_loads E raw of None \<Rightarrow> Inl WMNFormatError | Some v \<Rightarrow> Inr v)"

definition write_file_content :: "runtime \<Rightarrow> path \<Rightarrow> string \<Rightarrow> wmn \<Rightarrow> (exn + unit) \<times> wmn" where
  "write_file_content E file_path content st =
     (case write_text E (disk st) file_path content of
        (Some FileNotFoundError_w, d) \<Rightarrow> (Inl WMNFileError, st\<lparr>disk := d\<rparr>)
      | (Some IsADirectoryError_w, d) \<Rightarrow> (Inl WMNFileError, st\<lparr>disk := d\<rparr>)
      | (Some PermissionError_w, d) \<Rightarrow> (Inl WMNFileError, st\<lparr>disk := d\<rparr>)
      | (Some UnicodeEncodeError_w, d) \<Rightarrow> (Inl WMNFileError, st\<lparr>disk := d\<rparr>)
      | (Some OSError_w, d) \<Rightarrow> (Inl WMNFileError, st\<lparr>disk := d\<rparr>)
      | (None, d) \<Rightarrow>
          (let st1 = st\<lparr>disk := d, write_log := write_log st @ [(file_path, content)]\<rparr> in
           if file_path = data_path st then
             (Inr (), st1\<lparr>cached_data_raw := Some content, cached_data := None\<rparr>)
           else if file_path = schema_path st then
             (Inr (), st1\<lparr>cached_schema_raw := Some content, cached_schema := None\<rparr>)
           else (Inr (), st1)))"

text \<open>The properties \<^verbatim>\<open>data_raw\<close>, \<^verbatim>\<open>schema_raw\<close>, \<^verbatim>\<open>data\<close>, \<^verbatim>\<open>schema\<close> and the setter of \<^verbatim>\<open>data_raw\<close>.\<close>

definition get_data_raw :: "wmn \<Rightarrow> (exn + string) \<times> wmn" where
  "get_data_raw st =
     (case cached_data_raw st of
        Some raw \<Rightarrow> (Inr raw, st)
      | None \<Rightarrow>
          (case read_file_content st (data_path st) of
             Inl e \<Rightarrow> (Inl e, st)
           | Inr raw \<Rightarrow> (Inr raw, st\<lparr>cached_data_raw := Some raw\<rparr>)))"

definition get_schema_raw :: "wmn \<Rightarrow> (exn + string) \<times> wmn" where
  "get_schema_raw st =
     (case cached_schema_raw st of
        Some raw \<Rightarrow> (Inr raw, st)
      | None \<Rightarrow>
          (case read_file_content st (schema_path st) of
             Inl e \<Rightarrow> (Inl e, st)
           | Inr raw \<Rightarrow> (Inr raw, st\<lparr>cached_schema_raw := Some raw\<rparr>)))"

definition set_data_raw :: "string option \<Rightarrow> wmn \<Rightarrow> wmn" where
  "set_data_raw v st = st\<lparr>cached_data_raw := v, cached_data := None\<rparr>"

definition get_data :: "runtime \<Rightarrow> wmn \<Rightarrow> (exn + json) \<times> wmn" where
  "get_data E st =
     (case cached_data st of
        Some d \<Rightarrow> (Inr d, st)
      | None \<Rightarrow>
          (case get_data_raw st of
             (Inl e, st1) \<Rightarrow> (Inl e, st1)
           | (Inr raw, st1) \<Rightarrow>
               (case parse_json_data E raw of
                  Inl e \<Rightarrow> (Inl e, st1)
                | Inr parsed \<Rightarrow> (Inr parsed, st1\<lparr>cached_data := to_cache parsed\<rparr>))))"

definition get_schema :: "runtime \<Rightarrow> wmn \<Rightarrow> (exn + json) \<times> wmn" where
  "get_schema E st =
     (case cached_schema st of
        Some d \<Rightarrow> (Inr d, st)
      | None \<Rightarrow>
          (case get_schema_raw st of
             (Inl e, st1) \<Rightarrow> (Inl e, st1)
           | (Inr raw, st1) \<Rightarrow>
               (case parse_json_data E raw of
                  Inl e \<Rightarrow> (Inl e, st1)
                | Inr parsed \<Rightarrow> (Inr parsed, st1\<lparr>cached_schema := to_cache parsed\<rparr>))))"

section \<open>Python operations on values\<close>

text \<open>
  \<^verbatim>\<open>v.get(key, default)\<close>: only a \<^verbatim>\<open>dict\<close> has the method. \<^verbatim>\<open>v.get(key)\<close> is the
  call with the default \<^verbatim>\<open>None\<close>.
\<close>

fun dict_get :: "json \<Rightarrow> string \<Rightarrow> json \<Rightarrow> exn + json" where
  "dict_get (JObj kvs) key dflt =
     (case map_of kvs key of None \<Rightarrow> Inr dflt | Some v \<Rightarrow> Inr v)"
| "dict_get v key dflt = Inl AttributeError"

text \<open>\<^verbatim>\<open>str(v)\<close>: a string is itself, any other value is its \<^verbatim>\<open>repr\<close>.\<close>

definition py_str :: "runtime \<Rightarrow> json \<Rightarrow> string" where
  "py_str E v = (case v of JStr s \<Rightarrow> s | _ \<Rightarrow> repr E v)"

text \<open>Truth value of a value, as \<^verbatim>\<open>if v\<close> tests it.\<close>

fun truthy :: "json \<Rightarrow> bool" where
  "truthy JNull = False"
| "truthy (JBool b) = b"
| "truthy (JInt i) = (i \<noteq> 0)"
| "truthy (JStr s) = (s \<noteq> [])"
| "truthy (JArr xs) = (xs \<noteq> [])"
| "truthy (JObj kvs) = (kvs \<noteq> [])"

text \<open>A comprehension whose body can raise: the first exception, from the left, ends it.\<close>

fun map_exn :: "('a \<Rightarrow> exn + 'b) \<Rightarrow> 'a list \<Rightarrow> exn + 'b list" where
  "map_exn f [] = Inr []"
| "map_exn f (x # xs) =
     (case f x of
        Inl e \<Rightarrow> Inl e
      | Inr y \<Rightarrow> (case map_exn f xs of Inl e \<Rightarrow> Inl e | Inr ys \<Rightarrow> Inr (y # ys)))"

text \<open>
  \<^verbatim>\<open>sorted(xs, key=key)\<close>: the keys are computed first, one per element; the elements are
  then sorted by their keys, elements with equal keys staying in their order.
\<close>

definition py_sorted :: "('a \<Rightarrow> exn + string) \<Rightarrow> 'a list \<Rightarrow> exn + 'a list" where
  "py_sorted key xs =
     (case map_exn key xs of
        Inl e \<Rightarrow> Inl e
      | Inr ks \<Rightarrow> Inr (map snd (sort_key fst (zip ks xs))))"

section \<open>\<^verbatim>\<open>wmn_format_dataset.py\<close>\<close>

text \<open>\<^verbatim>\<open>str.casefold\<close> called on an element: a \<^verbatim>\<open>TypeError\<close> unless it is a string.\<close>

fun str_casefold :: "runtime \<Rightarrow> json \<Rightarrow> exn + string" where
  "str_casefold E (JStr s) = Inr (casefold E s)"
| "str_casefold E v = Inl TypeError"

definition sort_array_alphabetically :: "runtime \<Rightarrow> json list \<Rightarrow> exn + json list" where
  "sort_array_alphabetically E array = py_sorted (str_casefold E) array"

definition site_name_key :: "runtime \<Rightarrow> json \<Rightarrow> exn + string" where
  "site_name_key E site =
     (case dict_get site NAME_KEY (JStr []) of
        Inl e \<Rightarrow> Inl e
      | Inr v \<Rightarrow> Inr (casefold E (py_str E v)))"

definition sort_sites_by_name :: "runtime \<Rightarrow> json list \<Rightarrow> exn + json list" where
  "sort_sites_by_name E sites = py_sorted (site_name_key E) sites"

text \<open>
  The items of a \<^verbatim>\<open>dict\<close> have distinct keys, so \<^verbatim>\<open>dict(sorted(headers.items(), ...))\<close>
  is the sorted item list; a key of a parsed object is a string and is its own \<^verbatim>\<open>str\<close>.
\<close>

definition sort_site_headers :: "runtime \<Rightarrow> json \<Rightarrow> exn + json" where
  "sort_site_headers E site_data =
     (case site_data of
        JObj result \<Rightarrow>
          (case map_of result HEADERS_KEY of
             Some (JObj headers) \<Rightarrow>
               if headers \<noteq> [] then
                 Inr (JObj (AList.update HEADERS_KEY
                        (JObj (sort_key (\<lambda>item. casefold E (fst item)) headers)) result))
               else Inr (JObj result)
           | _ \<Rightarrow> Inr (JObj result))
      | _ \<Rightarrow> Inl AttributeError)"

definition reorder_site_keys :: "json \<Rightarrow> string list \<Rightarrow> exn + json" where
  "reorder_site_keys site_data key_order =
     (case site_data of
        JObj kvs \<Rightarrow>
          (let unknown_keys = filter (\<lambda>key. key \<notin> set key_order) (map fst kvs) in
           if unknown_keys \<noteq> [] then Inl WMNFormatError
           else
             Inr (JObj (fold (\<lambda>key result.
                          case map_of kvs key of
                            Some v \<Rightarrow> AList.update key v result
                          | None \<Rightarrow> result) key_order [])))
      | _ \<Rightarrow> Inl AttributeError)"

definition site_schema_properties :: "json \<Rightarrow> exn + json" where
  "site_schema_properties schema =
     (case dict_get schema PROPERTIES_KEY (JObj []) of
        Inl e \<Rightarrow> Inl e
      | Inr a \<Rightarrow>
          (case dict_get a SITES_KEY (JObj []) of
             Inl e \<Rightarrow> Inl e
           | Inr b \<Rightarrow>
               (case dict_get b ITEMS_KEY (JObj []) of
                  Inl e \<Rightarrow> Inl e
                | Inr c \<Rightarrow> dict_get c PROPERTIES_KEY JNull)))"

definition get_site_key_order :: "runtime \<Rightarrow> wmn \<Rightarrow> (exn + string list) \<times> wmn" where
  "get_site_key_order E st =
     (case get_schema E st of
        (Inl e, st1) \<Rightarrow> (Inl e, st1)
      | (Inr schema, st1) \<Rightarrow>
          (case site_schema_properties schema of
             Inl e \<Rightarrow> (Inl e, st1)
           | Inr JNull \<Rightarrow> (Inl WMNSchemaError, st1)
           | Inr (JObj site_schema) \<Rightarrow> (Inr (map fst site_schema), st1)
           | Inr _ \<Rightarrow> (Inl WMNSchemaError, st1)))"

text \<open>\<^verbatim>\<open>self.data[key] = v\<close>: the cached object is changed in place.\<close>

definition set_data_item :: "runtime \<Rightarrow> string \<Rightarrow> json \<Rightarrow> wmn \<Rightarrow> (exn + unit) \<times> wmn" where
  "set_data_item E key v st =
     (case get_data E st of
        (Inl e, st1) \<Rightarrow> (Inl e, st1)
      | (Inr (JObj kvs), st1) \<Rightarrow>
          (Inr (), st1\<lparr>cached_data := Some (JObj (AList.update key v kvs))\<rparr>)
      | (Inr _, st1) \<Rightarrow> (Inl TypeError, st1))"

fun nonblank_str :: "runtime \<Rightarrow> json \<Rightarrow> bool" where
  "nonblank_str E (JStr item) = (strip E item \<noteq> [])"
| "nonblank_str E v = False"

definition format_string_array :: "runtime \<Rightarrow> string \<Rightarrow> wmn \<Rightarrow> (exn + unit) \<times> wmn" where
  "format_string_array E key st =
     (case get_data E st of
        (Inl e, st1) \<Rightarrow> (Inl e, st1)
      | (Inr data, st1) \<Rightarrow>
          (case dict_get data key JNull of
             Inl e \<Rightarrow> (Inl e, st1)
           | Inr JNull \<Rightarrow> (Inl WMNFormatError, st1)
           | Inr (JArr array_data) \<Rightarrow>
               if array_data = [] then (Inl WMNFormatError, st1)
               else if \<not> list_all (nonblank_str E) array_data then (Inl WMNFormatError, st1)
               else
                 (case sort_array_alphabetically E array_data of
                    Inl e \<Rightarrow> (Inl e, st1)
                  | Inr sorted_array \<Rightarrow> set_data_item E key (JArr sorted_array) st1)
           | Inr _ \<Rightarrow> (Inl WMNFormatError, st1)))"

definition format_site :: "runtime \<Rightarrow> json \<Rightarrow> string list \<Rightarrow> exn + json" where
  "format_site E site_data key_order =
     (case sort_site_headers E site_data of
        Inl e \<Rightarrow> Inl e
      | Inr formatted_site \<Rightarrow> reorder_site_keys formatted_site key_order)"

definition format_sites :: "runtime \<Rightarrow> wmn \<Rightarrow> (exn + unit) \<times> wmn" where
  "format_sites E st =
     (case get_data E st of
        (Inl e, st1) \<Rightarrow> (Inl e, st1)
      | (Inr data, st1) \<Rightarrow>
          (case dict_get data SITES_KEY JNull of
             Inl e \<Rightarrow> (Inl e, st1)
           | Inr (JArr sites) \<Rightarrow>
               (case sort_sites_by_name E sites of
                  Inl e \<Rightarrow> (Inl e, st1)
                | Inr sorted_sites \<Rightarrow>
                    (case get_site_key_order E st1 of
                       (Inl e, st2) \<Rightarrow> (Inl e, st2)
                     | (Inr key_order, st2) \<Rightarrow>
                         (case map_exn (\<lambda>site_data. format_site E site_data key_order) sorted_sites of
                            Inl e \<Rightarrow> (Inl e, st2)
                          | Inr formatted \<Rightarrow> set_data_item E SITES_KEY (JArr formatted) st2)))
           | Inr _ \<Rightarrow> (Inl WMNFormatError, st1)))"

definition format_data :: "runtime \<Rightarrow> wmn \<Rightarrow> (exn + string) \<times> wmn" where
  "format_data E st =
     (case format_string_array E AUTHORS_KEY st of
        (Inl e, st1) \<Rightarrow> (Inl e, st1)
      | (Inr _, st1) \<Rightarrow>
          (case format_string_array E CATEGORIES_KEY st1 of
             (Inl e, st2) \<Rightarrow> (Inl e, st2)
           | (Inr _, st2) \<Rightarrow>
               (case format_sites E st2 of
                  (Inl e, st3) \<Rightarrow> (Inl e, st3)
                | (Inr _, st3) \<Rightarrow>
                    (case get_data E st3 of
                       (Inl e, st4) \<Rightarrow> (Inl e, st4)
                     | (Inr data, st4) \<Rightarrow>
                         (case json_dumps E data of
                            None \<Rightarrow> (Inl WMNFormatError, st4)
                          | Some text \<Rightarrow> (Inr text, st4))))))"

definition format_schema :: "runtime \<Rightarrow> wmn \<Rightarrow> (exn + string) \<times> wmn" where
  "format_schema E st =
     (case get_schema E st of
        (Inl e, st1) \<Rightarrow> (Inl e, st1)
      | (Inr schema, st1) \<Rightarrow>
          (case json_dumps E schema of
             None \<Rightarrow> (Inl WMNFormatError, st1)
           | Some text \<Rightarrow> (Inr text, st1)))"

text \<open>
  \<^verbatim>\<open>format_file\<close>: a domain error of the formatter or of the write is raised again as it
  is, any other exception becomes a \<^verbatim>\<open>WMNFormatError\<close>.
\<close>

definition format_file ::
  "runtime \<Rightarrow> (wmn \<Rightarrow> (exn + string) \<times> wmn) \<Rightarrow> string \<Rightarrow> path \<Rightarrow> wmn \<Rightarrow> (exn + bool) \<times> wmn" where
  "format_file E formatter raw_data file_path st =
     (case formatter st of
        (Inl e, st1) \<Rightarrow> (Inl (if is_WMNError e then e else WMNFormatError), st1)
      | (Inr formatted_data, st1) \<Rightarrow>
          if raw_data \<noteq> formatted_data then
            (case write_file_content E file_path formatted_data st1 of
               (Inl e, st2) \<Rightarrow> (Inl (if is_WMNError e then e else WMNFormatError), st2)
             | (Inr _, st2) \<Rightarrow> (Inr True, st2))
          else (Inr False, st1))"

text \<open>
  The call of \<^verbatim>\<open>main\<close>:
  \<^verbatim>\<open>formatter.format_file(formatter.format_data, formatter.data_raw, formatter.data_path)\<close>.
  The arguments are evaluated first; a failure to read the file is raised before
  \<^verbatim>\<open>format_file\<close> runs.
\<close>

definition format_data_file :: "runtime \<Rightarrow> wmn \<Rightarrow> (exn + bool) \<times> wmn" where
  "format_data_file E st =
     (case get_data_raw st of
        (Inl e, st1) \<Rightarrow> (Inl e, st1)
      | (Inr raw, st1) \<Rightarrow> format_file E (format_data E) raw (data_path st1) st1)"

section \<open>\<^verbatim>\<open>wmn_hash_dataset.py\<close>\<close>

datatype HashStatus = NEW | UPDATED | UNCHANGED

record HashResult =
  result_file :: path
  status :: HashStatus
  new_hash :: string
  previous_hash :: "string option"

definition compute_sha256 :: "runtime \<Rightarrow> string \<Rightarrow> exn + string" where
  "compute_sha256 E data =
     (if utf8_encodable E data then Inr (sha256_hexdigest E data) else Inl WMNHashError)"

text \<open>
  A path is the text \<^verbatim>\<open>str\<close> gives for a \<^verbatim>\<open>Path\<close>: components separated by
  \<^verbatim>\<open>/\<close>, no separator at the end. \<^verbatim>\<open>Path.name\<close> is the last component; it is empty
  for \<^verbatim>\<open>.\<close> (which is also \<^verbatim>\<open>Path('')\<close>) and for the root.
\<close>

definition path_name :: "path \<Rightarrow> string" where
  "path_name p =
     (if p = ''.'' then [] else rev (takeWhile (\<lambda>c. c \<noteq> CHR ''/'') (rev p)))"

text \<open>
  \<^verbatim>\<open>target_file.with_suffix(target_file.suffix + HASH_FILE_EXTENSION)\<close>:
  \<^verbatim>\<open>Path.with_suffix\<close> raises \<^verbatim>\<open>ValueError\<close> for a path whose name is empty. For any
  other path it puts the new suffix in the place of the old one; the new suffix is
  the old one followed by the extension, so the extension is appended to the path.
\<close>

definition get_hash_file_path :: "path \<Rightarrow> exn + path" where
  "get_hash_file_path target_file =
     (if path_name target_file = [] then Inl ValueError
      else Inr (target_file @ HASH_FILE_EXTENSION))"

text \<open>
  The digest is computed before the path of the digest file. The \<^verbatim>\<open>ValueError\<close> of
  the path is raised outside the two \<^verbatim>\<open>try\<close> blocks and reaches the caller as it is.
\<close>

definition update_hash_file ::
  "runtime \<Rightarrow> path \<Rightarrow> string \<Rightarrow> wmn \<Rightarrow> (exn + HashResult) \<times> wmn" where
  "update_hash_file E target_file data st =
     (case compute_sha256 E data of
        Inl e \<Rightarrow> (Inl e, st)
      | Inr new \<Rightarrow>
          (case get_hash_file_path target_file of
             Inl e \<Rightarrow> (Inl e, st)
           | Inr hash_file \<Rightarrow>
               (case (case read_file_content st hash_file of
                        Inl e \<Rightarrow> if e = WMNFileError then Inr None else Inl e
                      | Inr content \<Rightarrow> Inr (Some (strip E content))) of
                  Inl e \<Rightarrow> (Inl e, st)
                | Inr previous \<Rightarrow>
                    if previous = Some new then
                      (Inr \<lparr>result_file = target_file, status = UNCHANGED,
                            new_hash = new, previous_hash = previous\<rparr>, st)
                    else
                      (case write_file_content E hash_file (new @ [CHR 0x0A]) st of
                         (Inl e, st1) \<Rightarrow>
                           (Inl (if e = WMNFileError then WMNHashError else e), st1)
                       | (Inr _, st1) \<Rightarrow>
                           (Inr \<lparr>result_file = target_file,
                                 status = (if previous = None then NEW else UPDATED),
                                 new_hash = new, previous_hash = previous\<rparr>, st1)))))"

section \<open>\<^verbatim>\<open>wmn_validate_dataset.py\<close>\<close>

text \<open>
  What the formatter of findings reads of a \<^verbatim>\<open>jsonschema\<close> \<^verbatim>\<open>ValidationError\<close>: its
  message, its \<^verbatim>\<open>json_path\<close> and its \<^verbatim>\<open>absolute_path\<close>, a sequence of object keys and
  array indices.
\<close>

datatype segment = Key string | Index int

record ValidationError =
  error_message :: string
  error_json_path :: string
  error_absolute_path :: "segment list"

record WMNValidationModel =
  path :: string
  data :: "string option"
  message :: string

text \<open>\<^verbatim>\<open>current_data[segment]\<close>. A negative index counts from the end.\<close>

definition list_getitem :: "'a list \<Rightarrow> int \<Rightarrow> exn + 'a" where
  "list_getitem xs i =
     (if 0 \<le> i then
        (if nat i < length xs then Inr (xs ! nat i) else Inl IndexError)
      else
        (if nat (- i) \<le> length xs then Inr (xs ! (length xs - nat (- i)))
         else Inl IndexError))"

fun py_getitem :: "json \<Rightarrow> segment \<Rightarrow> exn + json" where
  "py_getitem (JObj kvs) (Key k) =
     (case map_of kvs k of None \<Rightarrow> Inl KeyError | Some v \<Rightarrow> Inr v)"
| "py_getitem (JObj kvs) (Index i) = Inl KeyError"
| "py_getitem (JArr xs) (Index i) = list_getitem xs i"
| "py_getitem (JArr xs) (Key k) = Inl TypeError"
| "py_getitem (JStr s) (Index i) =
     (case list_getitem s i of Inl e \<Rightarrow> Inl e | Inr c \<Rightarrow> Inr (JStr [c]))"
| "py_getitem (JStr s) (Key k) = Inl TypeError"
| "py_getitem v seg = Inl TypeError"

fun walk :: "json \<Rightarrow> segment list \<Rightarrow> exn + json" where
  "walk current_data [] = Inr current_data"
| "walk current_data (seg # segs) =
     (case py_getitem current_data seg of
        Inl e \<Rightarrow> Inl e
      | Inr v \<Rightarrow> walk v segs)"

text \<open>
  \<^verbatim>\<open>_format_validation_error\<close>: everything raised inside the \<^verbatim>\<open>try\<close> (by the \<^verbatim>\<open>data\<close>
  property, by a lookup, by \<^verbatim>\<open>json.dumps\<close>) leaves the preview \<^verbatim>\<open>None\<close>.
\<close>

definition format_validation_error ::
  "runtime \<Rightarrow> ValidationError \<Rightarrow> wmn \<Rightarrow> WMNValidationModel \<times> wmn" where
  "format_validation_error E error st =
     (let message_text = error_message error;
          path_string = error_json_path error;
          (data_preview, st') =
            (if error_absolute_path error \<noteq> [] then
               (case get_data E st of
                  (Inl e, st1) \<Rightarrow> (None, st1)
                | (Inr current_data, st1) \<Rightarrow>
                    (case walk current_data (error_absolute_path error) of
                       Inl e \<Rightarrow> (None, st1)
                     | Inr v \<Rightarrow> if v \<noteq> JNull then (json_dumps E v, st1) else (None, st1)))
             else (None, st))
      in (\<lparr>path = path_string, data = data_preview, message = message_text\<rparr>, st'))"

text \<open>Iterating over a value, as a \<^verbatim>\<open>for\<close> does.\<close>

fun py_iter :: "json \<Rightarrow> exn + json list" where
  "py_iter (JArr xs) = Inr xs"
| "py_iter (JObj kvs) = Inr (map (\<lambda>kv. JStr (fst kv)) kvs)"
| "py_iter (JStr s) = Inr (map (\<lambda>c. JStr [c]) s)"
| "py_iter v = Inl TypeError"

text \<open>
  \<^verbatim>\<open>Counter(names).items()\<close>: the distinct names in the order of their first occurrence,
  each with its number of occurrences. Lists and dicts are not hashable; \<^verbatim>\<open>True\<close> and
  \<^verbatim>\<open>1\<close> (and \<^verbatim>\<open>False\<close> and \<^verbatim>\<open>0\<close>) are equal keys.
\<close>

fun hashable :: "json \<Rightarrow> bool" where
  "hashable (JArr xs) = False"
| "hashable (JObj kvs) = False"
| "hashable v = True"

fun key_eq :: "json \<Rightarrow> json \<Rightarrow> bool" where
  "key_eq (JBool b) (JInt i) = (i = (if b then 1 else 0))"
| "key_eq (JInt i) (JBool b) = (i = (if b then 1 else 0))"
| "key_eq v w = (v = w)"

fun counter_add :: "json \<Rightarrow> (json \<times> nat) list \<Rightarrow> (json \<times> nat) list" where
  "counter_add x [] = [(x, 1)]"
| "counter_add x ((k, c) # rest) =
     (if key_eq k x then (k, Suc c) # rest else (k, c) # counter_add x rest)"

fun Counter_items :: "json list \<Rightarrow> (json \<times> nat) list \<Rightarrow> exn + (json \<times> nat) list" where
  "Counter_items [] acc = Inr acc"
| "Counter_items (x # xs) acc =
     (if hashable x then Counter_items xs (counter_add x acc) else Inl TypeError)"

definition validate_duplicates :: "runtime \<Rightarrow> wmn \<Rightarrow> (exn + json list) \<times> wmn" where
  "validate_duplicates E st =
     (case get_data E st of
        (Inl e, st1) \<Rightarrow> (Inl e, st1)
      | (Inr d, st1) \<Rightarrow>
          (case dict_get d SITES_KEY (JArr []) of
             Inl e \<Rightarrow> (Inl e, st1)
           | Inr sites_data \<Rightarrow>
               (case py_iter sites_data of
                  Inl e \<Rightarrow> (Inl e, st1)
                | Inr sites \<Rightarrow>
                    (case map_exn (\<lambda>site. dict_get site NAME_KEY JNull) sites of
                       Inl e \<Rightarrow> (Inl e, st1)
                     | Inr names \<Rightarrow>
                         (case Counter_items (filter truthy names) [] of
                            Inl e \<Rightarrow> (Inl e, st1)
                          | Inr items \<Rightarrow>
                              (Inr (map fst (filter (\<lambda>item. snd item > 1) items)), st1))))))"

section \<open>An instance of the runtime, and the initial object\<close>

text \<open>
  Examples are evaluated with this runtime for ASCII text: lower-casing for
  \<^verbatim>\<open>casefold\<close>, stripping of ASCII white space, a compact rendering of values in the
  place of \<^verbatim>\<open>repr\<close> and of \<^verbatim>\<open>json.dumps\<close>, a tagged copy of the text in the place of
  its digest, and the parser it is given.
\<close>

primrec show_json :: "json \<Rightarrow> string" where
  "show_json JNull = ''null''"
| "show_json (JBool b) = (if b then ''true'' else ''false'')"
| "show_json (JInt i) = (if i < 0 then ''-'' else []) @ replicate (nat \<bar>i\<bar>) CHR ''1''"
| "show_json (JStr s) = ''\"'' @ s @ ''\"''"
| "show_json (JArr xs) = ''['' @ concat (map (\<lambda>s. s @ '','') (map show_json xs)) @ '']''"
| "show_json (JObj kvs) =
     ''{'' @ concat (map (\<lambda>ks. fst ks @ '':'' @ snd ks @ '','') (map (map_prod id show_json) kvs)) @ ''}''"

definition ascii_lower :: "char \<Rightarrow> char" where
  "ascii_lower c =
     (case map_of (zip ''ABCDEFGHIJKLMNOPQRSTUVWXYZ'' ''abcdefghijklmnopqrstuvwxyz'') c of
        Some l \<Rightarrow> l
      | None \<Rightarrow> c)"

definition ascii_space :: "char \<Rightarrow> bool" where
  "ascii_space c = (c \<in> set [CHR '' '', CHR 0x09, CHR 0x0A, CHR 0x0B, CHR 0x0C, CHR 0x0D])"

definition ascii_runtime :: "(string \<Rightarrow> json option) \<Rightarrow> runtime" where
  "ascii_runtime loads =
     \<lparr>casefold = map ascii_lower,
      strip = (\<lambda>s. rev (dropWhile ascii_space (rev (dropWhile ascii_space s)))),
      repr = show_json,
      json_dumps = (\<lambda>v. Some (show_json v)),
      json_loads = loads,
      utf8_encodable = (\<lambda>s. True),
      sha256_hexdigest = (\<lambda>s. ''sha256:'' @ s)\<rparr>"

text \<open>\<^verbatim>\<open>WMNBase.__init__\<close>, on a given disk.\<close>

definition WMNBase_init :: "path \<Rightarrow> path \<Rightarrow> (path \<Rightarrow> fnode) \<Rightarrow> wmn" where
  "WMNBase_init dp sp d =
     \<lparr>data_path = dp, schema_path = sp, cached_data = None, cached_schema = None,
      cached_data_raw = None, cached_schema_raw = None, disk = d, write_log = []\<rparr>"

section \<open>Auxiliary notions\<close>

text \<open>
  Notions the statements and the proofs use. Values that are objects, values that are
  strings, and a site as the data model has it as far as its name goes: an object whose
  \<^verbatim>\<open>name\<close>, when it has one, is a string (\<^verbatim>\<open>validate_duplicates\<close> is declared to
  return \<^verbatim>\<open>List[str]\<close>).
\<close>

fun is_JObj :: "json \<Rightarrow> bool" where
  "is_JObj (JObj kvs) = True"
| "is_JObj v = False"

fun is_JStr :: "json \<Rightarrow> bool" where
  "is_JStr (JStr s) = True"
| "is_JStr v = False"

fun str_named :: "json \<Rightarrow> bool" where
  "str_named (JObj kvs) =
     (case map_of kvs NAME_KEY of None \<Rightarrow> True | Some (JStr n) \<Rightarrow> True | Some _ \<Rightarrow> False)"
| "str_named v = False"

text \<open>The count an item list of a \<^verbatim>\<open>Counter\<close> gives a key.\<close>

definition occurrences :: "(json \<times> nat) list \<Rightarrow> json \<Rightarrow> nat" where
  "occurrences items k = (case map_of items k of None \<Rightarrow> 0 | Some c \<Rightarrow> c)"

text \<open>
  The sort keys of \<^verbatim>\<open>_sort_sites_by_name\<close>, \<^verbatim>\<open>_sort_array_alphabetically\<close> and
  \<^verbatim>\<open>_sort_site_headers\<close> as total functions: where every element has a key, \<^verbatim>\<open>sorted\<close>
  is the stable insertion sort by that key.
\<close>

definition site_key :: "runtime \<Rightarrow> json \<Rightarrow> string" where
  "site_key E site = projr (site_name_key E site)"

definition item_key :: "runtime \<Rightarrow> json \<Rightarrow> string" where
  "item_key E item = projr (str_casefold E item)"

definition header_key :: "runtime \<Rightarrow> string \<times> json \<Rightarrow> string" where
  "header_key E item = casefold E (fst item)"

text \<open>
  One call of \<^verbatim>\<open>_format_string_array\<close> on the fields of the dataset, the body of the
  loop of \<^verbatim>\<open>_reorder_site_keys\<close>, and what \<^verbatim>\<open>format_data\<close> does to the fields of the
  dataset, given what \<^verbatim>\<open>_get_site_key_order\<close> returns when it is reached.
\<close>

definition string_array_step :: "runtime \<Rightarrow> string \<Rightarrow> (string \<times> json) list \<Rightarrow> exn + (string \<times> json) list" where
  "string_array_step E key kvs =
     (case map_of kvs key of
        Some (JArr a) \<Rightarrow>
          if a \<noteq> [] \<and> list_all (nonblank_str E) a
          then Inr (AList.update key (JArr (sort_key (item_key E) a)) kvs)
          else Inl WMNFormatError
      | _ \<Rightarrow> Inl WMNFormatError)"

definition pick :: "(string \<times> json) list \<Rightarrow> string \<Rightarrow> (string \<times> json) list \<Rightarrow> (string \<times> json) list" where
  "pick kvs key result = (case map_of kvs key of Some v \<Rightarrow> AList.update key v result | None \<Rightarrow> result)"

definition format_fields ::
  "runtime \<Rightarrow> exn + string list \<Rightarrow> (string \<times> json) list \<Rightarrow> exn + (string \<times> json) list" where
  "format_fields E order kvs =
     (case string_array_step E AUTHORS_KEY kvs of
        Inl e \<Rightarrow> Inl e
      | Inr kvs1 \<Rightarrow>
          (case string_array_step E CATEGORIES_KEY kvs1 of
             Inl e \<Rightarrow> Inl e
           | Inr kvs2 \<Rightarrow>
               (case map_of kvs2 SITES_KEY of
                  Some (JArr sites) \<Rightarrow>
                    if list_all is_JObj sites then
                      (case order of
                         Inl e \<Rightarrow> Inl e
                       | Inr key_order \<Rightarrow>
                           (case map_exn (\<lambda>site. format_site E site key_order)
                                   (sort_key (site_key E) sites) of
                              Inl e \<Rightarrow> Inl e
                            | Inr formatted \<Rightarrow>
                                Inr (AList.update SITES_KEY (JArr formatted) kvs2)))
                    else Inl AttributeError
                | _ \<Rightarrow> Inl WMNFormatError)))"

section \<open>Example values\<close>

text \<open>
  A new object in a directory that holds no file, and an object whose four caches are
  filled.
\<close>

definition bare_example :: wmn where
  "bare_example = WMNBase_init DEFAULT_DATA DEFAULT_SCHEMA (\<lambda>p. Absent)"

definition cached_example :: wmn where
  "cached_example =
     (WMNBase_init DEFAULT_DATA DEFAULT_SCHEMA (\<lambda>p. Absent))
       \<lparr>cached_data := Some (JObj []), cached_schema := Some (JObj []),
        cached_data_raw := Some ''{}'', cached_schema_raw := Some ''{ }''\<rparr>"

text \<open>The dataset whose sites have the given names and nothing else.\<close>

definition named_sites :: "string list \<Rightarrow> json" where
  "named_sites names = JObj [(SITES_KEY, JArr (map (\<lambda>n. JObj [(NAME_KEY, JStr n)]) names))]"

text \<open>
  Two violations of a dataset that has no authors and whose only site is named by an empty
  list: the missing property, reported at the root with an empty path, and the name,
  reported at its own path.
\<close>

definition root_violation :: ValidationError where
  "root_violation =
     \<lparr>error_message = ''authors is a required property'', error_json_path = ''$'',
      error_absolute_path = []\<rparr>"

definition name_violation :: ValidationError where
  "name_violation =
     \<lparr>error_message = ''[] is not of type string'', error_json_path = ''$.sites[0].name'',
      error_absolute_path = [Key ''sites'', Index 0, Key ''name'']\<rparr>"

definition unnamed_dataset :: json where
  "unnamed_dataset = JObj [(''sites'', JArr [JObj [(''name'', JArr [])]])]"

text \<open>
  The dataset and the schema of the end-to-end scenario of the specification, the dataset
  formatted, a parser that knows the renderings of these three values and nothing else,
  an object that has loaded both files, and a dataset one of whose sites has a key the
  schema does not declare.
\<close>

definition example_dataset :: json where
  "example_dataset =
     JObj [(''authors'', JArr [JStr ''b'', JStr ''a'']),
           (''categories'', JArr [JStr ''y'', JStr ''x'']),
           (''sites'', JArr [
              JObj [(''name'', JStr ''Zeta''), (''headers'', JObj [(''b'', JStr ''2''), (''a'', JStr ''1'')])],
              JObj [(''name'', JStr ''Alpha''), (''headers'', JObj [])]])]"

definition example_schema :: json where
  "example_schema =
     JObj [(''properties'', JObj [(''sites'', JObj [(''items'', JObj [(''properties'',
        JObj [(''name'', JObj []), (''headers'', JObj [])])])])])]"

definition formatted_example :: json where
  "formatted_example =
     JObj [(''authors'', JArr [JStr ''a'', JStr ''b'']),
           (''categories'', JArr [JStr ''x'', JStr ''y'']),
           (''sites'', JArr [
              JObj [(''name'', JStr ''Alpha''), (''headers'', JObj [])],
              JObj [(''name'', JStr ''Zeta''), (''headers'', JObj [(''a'', JStr ''1''), (''b'', JStr ''2'')])]])]"

definition example_loads :: "string \<Rightarrow> json option" where
  "example_loads = map_of [(show_json formatted_example, formatted_example),
                           (show_json example_schema, example_schema),
                           (show_json example_dataset, example_dataset)]"

definition loaded_example :: wmn where
  "loaded_example =
     bare_example\<lparr>cached_data := Some example_dataset, cached_schema := Some example_schema\<rparr>"

definition stray_key_dataset :: json where
  "stray_key_dataset =
     JObj [(''authors'', JArr [JStr ''a'']),
           (''categories'', JArr [JStr ''x'']),
           (''sites'', JArr [JObj [(''name'', JStr ''Alpha''), (''colour'', JStr ''red'')]])]"

text \<open>
  A new object in a directory that holds the schema of the example and the given dataset,
  both as the runtime renders them.
\<close>

definition on_disk :: "json \<Rightarrow> wmn" where
  "on_disk dataset =
     WMNBase_init DEFAULT_DATA DEFAULT_SCHEMA
       ((\<lambda>p. Absent)(DEFAULT_DATA := Text (show_json dataset),
                       DEFAULT_SCHEMA := Text (show_json example_schema)))"

text \<open>
  A schema whose \<^verbatim>\<open>items\<close> is an array of schemas (one per position), as JSON Schema
  allows: it has no declaration at \<^verbatim>\<open>properties.sites.items.properties\<close>.
\<close>

definition tuple_items_schema :: json where
  "tuple_items_schema =
     JObj [(''properties'', JObj [(''sites'', JObj [(''items'',
        JArr [JObj [(''properties'', JObj [(''name'', JObj []), (''headers'', JObj [])])]])])])]"

section \<open>Writing files\<close>

lemmas key_defs =
  SITES_KEY_def NAME_KEY_def AUTHORS_KEY_def CATEGORIES_KEY_def HEADERS_KEY_def
  PROPERTIES_KEY_def ITEMS_KEY_def

lemma write_file_content_result:
  "fst (write_file_content E p c st) =
     (if open_w (disk st p) = None \<and> utf8_encodable E c then Inr () else Inl WMNFileError)"
  by (auto simp: write_file_content_def write_text_def Let_def split: option.splits write_error.splits)

lemma write_file_content_Inr:
  assumes "write_file_content E p c st = (Inr u, st')"
  shows "disk st' = (disk st)(p := Text c)" "write_log st' = write_log st @ [(p, c)]"
    "data_path st' = data_path st" "schema_path st' = schema_path st"
  using assms
  by (auto simp: write_file_content_def write_text_def Let_def
      split: option.splits write_error.splits if_splits)

lemma write_file_content_Inl:
  assumes "write_file_content E p c st = (Inl e, st')"
  shows "e = WMNFileError" "write_log st' = write_log st"
    "cached_data st' = cached_data st" "cached_data_raw st' = cached_data_raw st"
    "cached_schema st' = cached_schema st" "cached_schema_raw st' = cached_schema_raw st"
    "data_path st' = data_path st" "schema_path st' = schema_path st"
  using assms
  by (auto simp: write_file_content_def write_text_def Let_def
      split: option.splits write_error.splits if_splits)

text \<open>
  Claim C10. \<^verbatim>\<open>write_file_content\<close> changes the four cached values only on a write that
  succeeds and only for the tracked path written: a successful write to the data path
  sets the cached raw data to the written content and clears the cached parsed data, and
  leaves the schema's two values as they are; a successful write to the schema path does
  the same for the schema's values; a write to any other path, and a write that fails
  (always with a \<^verbatim>\<open>WMNFileError\<close>), leaves all four unchanged. The two tracked paths are
  different paths, as the defaults are.
\<close>

theorem write_file_content_cache_frame:
  assumes paths: "data_path st \<noteq> schema_path st"
    and run: "write_file_content E p content st = (r, st')"
  shows "(r = Inr () \<or> r = Inl WMNFileError) \<and>
         (if r = Inr () \<and> p = data_path st then
            cached_data_raw st' = Some content \<and> cached_data st' = None \<and>
            cached_schema_raw st' = cached_schema_raw st \<and> cached_schema st' = cached_schema st
          else if r = Inr () \<and> p = schema_path st then
            cached_schema_raw st' = Some content \<and> cached_schema st' = None \<and>
            cached_data_raw st' = cached_data_raw st \<and> cached_data st' = cached_data st
          else
            cached_data_raw st' = cached_data_raw st \<and> cached_data st' = cached_data st \<and>
            cached_schema_raw st' = cached_schema_raw st \<and> cached_schema st' = cached_schema st)"
proof (cases r)
  case (Inl e)
  with run show ?thesis by (auto dest: write_file_content_Inl)
next
  case (Inr u)
  with run paths show ?thesis
    by (auto simp: write_file_content_def write_text_def Let_def
        split: option.splits write_error.splits if_splits)
qed

theorem write_file_content_cache_frame_witness:
  "data_path cached_example \<noteq> schema_path cached_example \<and>
   fst (write_file_content (ascii_runtime Map.empty) DEFAULT_DATA ''[]'' cached_example) = Inr () \<and>
   cached_data_raw (snd (write_file_content (ascii_runtime Map.empty) DEFAULT_DATA ''[]'' cached_example)) = Some ''[]'' \<and>
   cached_data (snd (write_file_content (ascii_runtime Map.empty) DEFAULT_DATA ''[]'' cached_example)) = None \<and>
   cached_schema (snd (write_file_content (ascii_runtime Map.empty) DEFAULT_DATA ''[]'' cached_example)) = Some (JObj []) \<and>
   cached_schema_raw (snd (write_file_content (ascii_runtime Map.empty) DEFAULT_DATA ''[]'' cached_example)) = Some ''{ }''"
proof -
  have paths: "data_path cached_example \<noteq> schema_path cached_example"
    by (simp add: cached_example_def WMNBase_init_def DEFAULT_DATA_def DEFAULT_SCHEMA_def)
  have ok: "fst (write_file_content (ascii_runtime Map.empty) DEFAULT_DATA ''[]'' cached_example) = Inr ()"
    by (simp add: write_file_content_result cached_example_def WMNBase_init_def ascii_runtime_def)
  have dp: "data_path cached_example = DEFAULT_DATA"
    by (simp add: cached_example_def WMNBase_init_def)
  show ?thesis
    using write_file_content_cache_frame [OF paths surjective_pairing, of "ascii_runtime Map.empty" DEFAULT_DATA "''[]''"]
      paths ok dp
    by (simp add: cached_example_def WMNBase_init_def)
qed

section \<open>Digest files\<close>

lemma read_file_content_Inl: "read_file_content st p = Inl e \<Longrightarrow> e = WMNFileError"
  by (auto simp: read_file_content_def split: sum.splits read_error.splits)

lemma get_hash_file_path_named:
  "path_name target \<noteq> [] \<Longrightarrow> get_hash_file_path target = Inr (target @ ''.sha256'')"
  by (simp add: get_hash_file_path_def HASH_FILE_EXTENSION_def)

text \<open>
  Claim C2, for a target that has a file name. For every target path whose name is
  not empty and every text that encodes, with \<open>h\<close> the digest of the text and the
  digest file the one at the target path followed by \<^verbatim>\<open>.sha256\<close>:
  when no digest file can be read and the write succeeds, \<^verbatim>\<open>update_hash_file\<close> writes
  \<open>h\<close> and a newline to the digest file and returns \<^verbatim>\<open>NEW\<close> with no previous digest;
  when the stored digest (the file's content, stripped) equals \<open>h\<close>, it returns
  \<^verbatim>\<open>UNCHANGED\<close> with both digests equal and changes nothing, so writes nothing;
  otherwise, when the write succeeds, it writes \<open>h\<close> and a newline to the digest file and
  returns \<^verbatim>\<open>UPDATED\<close> with the stored digest and \<open>h\<close>, which differ.
  A write goes to the digest file and to no other: the target file itself is left
  as it was.
\<close>

theorem update_hash_file_transition:
  assumes enc: "utf8_encodable E current_text"
    and named: "path_name target \<noteq> []"
    and run: "update_hash_file E target current_text st = (r, st')"
  shows "(read_file_content st (target @ ''.sha256'') = Inl WMNFileError \<and>
            fst (write_file_content E (target @ ''.sha256'') (sha256_hexdigest E current_text @ [CHR 0x0A]) st) = Inr ()
          \<longrightarrow> r = Inr \<lparr>result_file = target, status = NEW,
                       new_hash = sha256_hexdigest E current_text, previous_hash = None\<rparr> \<and>
              disk st' = (disk st)(target @ ''.sha256'' := Text (sha256_hexdigest E current_text @ [CHR 0x0A])) \<and>
              disk st' target = disk st target \<and>
              write_log st' = write_log st @ [(target @ ''.sha256'', sha256_hexdigest E current_text @ [CHR 0x0A])])
       \<and> (\<forall>content. read_file_content st (target @ ''.sha256'') = Inr content \<and>
             strip E content = sha256_hexdigest E current_text
          \<longrightarrow> r = Inr \<lparr>result_file = target, status = UNCHANGED,
                       new_hash = sha256_hexdigest E current_text,
                       previous_hash = Some (sha256_hexdigest E current_text)\<rparr> \<and> st' = st)
       \<and> (\<forall>content. read_file_content st (target @ ''.sha256'') = Inr content \<and>
             strip E content \<noteq> sha256_hexdigest E current_text \<and>
             fst (write_file_content E (target @ ''.sha256'') (sha256_hexdigest E current_text @ [CHR 0x0A]) st) = Inr ()
          \<longrightarrow> r = Inr \<lparr>result_file = target, status = UPDATED,
                       new_hash = sha256_hexdigest E current_text,
                       previous_hash = Some (strip E content)\<rparr> \<and>
              disk st' = (disk st)(target @ ''.sha256'' := Text (sha256_hexdigest E current_text @ [CHR 0x0A])) \<and>
              disk st' target = disk st target \<and>
              write_log st' = write_log st @ [(target @ ''.sha256'', sha256_hexdigest E current_text @ [CHR 0x0A])])"
proof -
  let ?hf = "target @ ''.sha256''"
  let ?h = "sha256_hexdigest E current_text"
  let ?line = "?h @ [CHR 0x0A]"
  note hf = get_hash_file_path_named [OF named]
  have written: "disk st1 = (disk st)(?hf := Text ?line) \<and> disk st1 target = disk st target \<and>
      write_log st1 = write_log st @ [(?hf, ?line)]"
    if "write_file_content E ?hf ?line st = (Inr u, st1)" for u st1
    using write_file_content_Inr [OF that] by simp
  have new: "r = Inr \<lparr>result_file = target, status = NEW, new_hash = ?h, previous_hash = None\<rparr> \<and>
      disk st' = (disk st)(?hf := Text ?line) \<and> disk st' target = disk st target \<and>
      write_log st' = write_log st @ [(?hf, ?line)]"
    if rd: "read_file_content st ?hf = Inl WMNFileError"
      and ok: "fst (write_file_content E ?hf ?line st) = Inr ()"
  proof -
    obtain st1 where w: "write_file_content E ?hf ?line st = (Inr (), st1)"
      using ok by (metis prod.collapse)
    from run enc rd w have "r = Inr \<lparr>result_file = target, status = NEW, new_hash = ?h, previous_hash = None\<rparr>"
      and "st' = st1"
      by (auto simp: update_hash_file_def compute_sha256_def hf)
    then show ?thesis using written [OF w] by simp
  qed
  have unchanged: "r = Inr \<lparr>result_file = target, status = UNCHANGED, new_hash = ?h, previous_hash = Some ?h\<rparr> \<and>
      st' = st"
    if rd: "read_file_content st ?hf = Inr content" and same: "strip E content = ?h" for content
    using run enc rd same by (auto simp: update_hash_file_def compute_sha256_def hf)
  have updated: "r = Inr \<lparr>result_file = target, status = UPDATED, new_hash = ?h,
        previous_hash = Some (strip E content)\<rparr> \<and>
      disk st' = (disk st)(?hf := Text ?line) \<and> disk st' target = disk st target \<and>
      write_log st' = write_log st @ [(?hf, ?line)]"
    if rd: "read_file_content st ?hf = Inr content" and differ: "strip E content \<noteq> ?h"
      and ok: "fst (write_file_content E ?hf ?line st) = Inr ()" for content
  proof -
    obtain st1 where w: "write_file_content E ?hf ?line st = (Inr (), st1)"
      using ok by (metis prod.collapse)
    from run enc rd differ w have "r = Inr \<lparr>result_file = target, status = UPDATED, new_hash = ?h,
        previous_hash = Some (strip E content)\<rparr>" and "st' = st1"
      by (auto simp: update_hash_file_def compute_sha256_def hf)
    then show ?thesis using written [OF w] by simp
  qed
  show ?thesis using new unchanged updated by blast
qed

text \<open>
  A failure of \<^verbatim>\<open>update_hash_file\<close> is a \<^verbatim>\<open>WMNHashError\<close>, or the \<^verbatim>\<open>ValueError\<close> of a
  target without a name; no write completed.
\<close>

lemma update_hash_file_failure:
  "update_hash_file E target current_text st = (Inl e, st') \<Longrightarrow>
     (e = WMNHashError \<or> e = ValueError \<and> path_name target = []) \<and> write_log st' = write_log st"
  by (auto simp: update_hash_file_def compute_sha256_def get_hash_file_path_def
      split: if_splits sum.splits prod.splits dest: write_file_content_Inl read_file_content_Inl)

text \<open>
  For a target without a name the digest is computed, the path of the digest file
  is not, and nothing is read or written.
\<close>

lemma update_hash_file_no_name:
  "utf8_encodable E current_text \<Longrightarrow> path_name target = [] \<Longrightarrow>
     update_hash_file E target current_text st = (Inl ValueError, st)"
  by (simp add: update_hash_file_def compute_sha256_def get_hash_file_path_def)

lemmas example_defs =
  ascii_runtime_def WMNBase_init_def DEFAULT_DATA_def DEFAULT_SCHEMA_def HASH_FILE_EXTENSION_def
  ascii_space_def

lemma data_path_named: "path_name DEFAULT_DATA \<noteq> []"
  by (simp add: path_name_def DEFAULT_DATA_def)

lemma digest_path: "DEFAULT_DATA @ ''.sha256'' = ''wmn-data.json.sha256''"
  by (simp add: DEFAULT_DATA_def)

lemma first_digest:
  "update_hash_file (ascii_runtime Map.empty) DEFAULT_DATA ''{}'' bare_example =
     (Inr \<lparr>result_file = DEFAULT_DATA, status = NEW, new_hash = ''sha256:{}'', previous_hash = None\<rparr>,
      bare_example\<lparr>disk := (disk bare_example)(''wmn-data.json.sha256'' := Text (''sha256:{}'' @ [CHR 0x0A])),
                   write_log := [(''wmn-data.json.sha256'', ''sha256:{}'' @ [CHR 0x0A])]\<rparr>)"
  by (simp add: update_hash_file_def compute_sha256_def get_hash_file_path_def path_name_def
      read_file_content_def write_file_content_def write_text_def bare_example_def example_defs)

theorem update_hash_file_transition_witness:
  "utf8_encodable (ascii_runtime Map.empty) ''{}'' \<and> path_name DEFAULT_DATA \<noteq> [] \<and>
   fst (update_hash_file (ascii_runtime Map.empty) DEFAULT_DATA ''{}'' bare_example) =
     Inr \<lparr>result_file = DEFAULT_DATA, status = NEW, new_hash = ''sha256:{}'', previous_hash = None\<rparr> \<and>
   disk (snd (update_hash_file (ascii_runtime Map.empty) DEFAULT_DATA ''{}'' bare_example))
     ''wmn-data.json.sha256'' = Text (''sha256:{}'' @ [CHR 0x0A]) \<and>
   fst (update_hash_file (ascii_runtime Map.empty) DEFAULT_DATA ''{}''
         (snd (update_hash_file (ascii_runtime Map.empty) DEFAULT_DATA ''{}'' bare_example))) =
     Inr \<lparr>result_file = DEFAULT_DATA, status = UNCHANGED, new_hash = ''sha256:{}'',
          previous_hash = Some ''sha256:{}''\<rparr> \<and>
   fst (update_hash_file (ascii_runtime Map.empty) DEFAULT_DATA ''{ }''
         (snd (update_hash_file (ascii_runtime Map.empty) DEFAULT_DATA ''{}'' bare_example))) =
     Inr \<lparr>result_file = DEFAULT_DATA, status = UPDATED, new_hash = ''sha256:{ }'',
          previous_hash = Some ''sha256:{}''\<rparr>"
proof -
  let ?R = "ascii_runtime Map.empty"
  let ?s1 = "snd (update_hash_file ?R DEFAULT_DATA ''{}'' bare_example)"
  note named = data_path_named
  have enc: "utf8_encodable ?R t" for t by (simp add: ascii_runtime_def)
  have h: "sha256_hexdigest ?R t = ''sha256:'' @ t" for t by (simp add: ascii_runtime_def)
  have rd0: "read_file_content bare_example (DEFAULT_DATA @ ''.sha256'') = Inl WMNFileError"
    by (simp add: read_file_content_def bare_example_def WMNBase_init_def)
  have ok0: "fst (write_file_content ?R (DEFAULT_DATA @ ''.sha256'')
      (sha256_hexdigest ?R ''{}'' @ [CHR 0x0A]) bare_example) = Inr ()"
    by (simp add: write_file_content_result bare_example_def WMNBase_init_def ascii_runtime_def)
  have rd1: "read_file_content ?s1 (DEFAULT_DATA @ ''.sha256'') = Inr (''sha256:{}'' @ [CHR 0x0A])"
    by (simp add: first_digest digest_path read_file_content_def)
  have stripped: "strip ?R (''sha256:{}'' @ [CHR 0x0A]) = ''sha256:{}''"
    by (simp add: ascii_runtime_def ascii_space_def)
  have ok1: "fst (write_file_content ?R (DEFAULT_DATA @ ''.sha256'')
      (sha256_hexdigest ?R ''{ }'' @ [CHR 0x0A]) ?s1) = Inr ()"
    by (simp add: write_file_content_result first_digest digest_path enc)
  have new: "fst (update_hash_file ?R DEFAULT_DATA ''{}'' bare_example) =
      Inr \<lparr>result_file = DEFAULT_DATA, status = NEW, new_hash = ''sha256:{}'', previous_hash = None\<rparr> \<and>
      disk ?s1 (DEFAULT_DATA @ ''.sha256'') = Text (''sha256:{}'' @ [CHR 0x0A])"
    using update_hash_file_transition [where target = DEFAULT_DATA and st = bare_example,
        OF enc named surjective_pairing] rd0 ok0 h by simp
  have unchanged: "fst (update_hash_file ?R DEFAULT_DATA ''{}'' ?s1) =
      Inr \<lparr>result_file = DEFAULT_DATA, status = UNCHANGED, new_hash = ''sha256:{}'',
           previous_hash = Some ''sha256:{}''\<rparr>"
    using update_hash_file_transition [where target = DEFAULT_DATA and st = ?s1 and current_text = "''{}''",
        OF enc named surjective_pairing] rd1 stripped h by simp
  have updated: "fst (update_hash_file ?R DEFAULT_DATA ''{ }'' ?s1) =
      Inr \<lparr>result_file = DEFAULT_DATA, status = UPDATED, new_hash = ''sha256:{ }'',
           previous_hash = Some ''sha256:{}''\<rparr>"
    using update_hash_file_transition [where target = DEFAULT_DATA and st = ?s1 and current_text = "''{ }''",
        OF enc named surjective_pairing] rd1 stripped ok1 h by simp
  show ?thesis using enc named new unchanged updated digest_path by simp
qed

text \<open>
  The claim as it stands, for every target path, fails at the path \<^verbatim>\<open>.\<close>, which has no
  name: no digest file can be read and the file system would take the write, but
  the call ends with the \<^verbatim>\<open>ValueError\<close> of \<^verbatim>\<open>Path.with_suffix\<close>, returns no status and
  writes nothing.
\<close>

theorem update_hash_file_no_name_counterexample:
  "utf8_encodable (ascii_runtime Map.empty) ''{}'' \<and>
   read_file_content bare_example (''.'' @ ''.sha256'') = Inl WMNFileError \<and>
   fst (write_file_content (ascii_runtime Map.empty) (''.'' @ ''.sha256'')
          (''sha256:{}'' @ [CHR 0x0A]) bare_example) = Inr () \<and>
   update_hash_file (ascii_runtime Map.empty) ''.'' ''{}'' bare_example = (Inl ValueError, bare_example)"
proof -
  let ?R = "ascii_runtime Map.empty"
  have enc: "utf8_encodable ?R ''{}''" by (simp add: ascii_runtime_def)
  have rd: "read_file_content bare_example (''.'' @ ''.sha256'') = Inl WMNFileError"
    by (simp add: read_file_content_def bare_example_def WMNBase_init_def)
  have ok: "fst (write_file_content ?R (''.'' @ ''.sha256'') (''sha256:{}'' @ [CHR 0x0A]) bare_example) = Inr ()"
    by (simp add: write_file_content_result bare_example_def WMNBase_init_def ascii_runtime_def)
  have run: "update_hash_file ?R ''.'' ''{}'' bare_example = (Inl ValueError, bare_example)"
    by (simp add: update_hash_file_def compute_sha256_def get_hash_file_path_def path_name_def
        ascii_runtime_def)
  show ?thesis using enc rd ok run by simp
qed

section \<open>Duplicate site names\<close>

lemma map_exn_Inr_iff: "map_exn f xs = Inr ys \<longleftrightarrow> map f xs = map Inr ys"
proof (induction xs arbitrary: ys)
  case Nil
  then show ?case by auto
next
  case (Cons x xs)
  show ?case
  proof (cases "f x")
    case (Inl e)
    then show ?thesis by (cases ys) auto
  next
    case (Inr y)
    show ?thesis
    proof (cases "map_exn f xs")
      case (Inl e)
      then have "\<And>zs. map f xs \<noteq> map Inr zs" using Cons.IH by auto
      then show ?thesis using Inl Inr by (cases ys) auto
    next
      case r: (Inr zs)
      then have "map f xs = map Inr zs" using Cons.IH by simp
      then show ?thesis using r Inr by (cases ys) (auto simp: inj_map_eq_map)
    qed
  qed
qed

lemma map_exn_total: "(\<And>x. x \<in> set xs \<Longrightarrow> f x = Inr (g x)) \<Longrightarrow> map_exn f xs = Inr (map g xs)"
  by (induction xs) auto

lemma key_eq_JStr: "is_JStr k \<Longrightarrow> key_eq k x = (k = x)"
  by (cases k; cases x) auto

lemma counter_add_str:
  "list_all is_JStr (map fst acc) \<Longrightarrow> is_JStr x \<Longrightarrow> distinct (map fst acc) \<Longrightarrow>
   list_all is_JStr (map fst (counter_add x acc)) \<and>
   distinct (map fst (counter_add x acc)) \<and>
   (\<forall>k. occurrences (counter_add x acc) k = occurrences acc k + (if x = k then 1 else 0)) \<and>
   fst ` set (counter_add x acc) = insert x (fst ` set acc)"
proof (induction acc)
  case Nil
  then show ?case by (simp add: occurrences_def)
next
  case (Cons p acc)
  obtain k0 c0 where p: "p = (k0, c0)" by (cases p)
  have k0: "is_JStr k0" using Cons.prems p by simp
  show ?case
  proof (cases "k0 = x")
    case True
    then show ?thesis using Cons.prems p k0 by (simp add: key_eq_JStr occurrences_def insert_absorb)
  next
    case False
    have IH: "list_all is_JStr (map fst (counter_add x acc)) \<and>
      distinct (map fst (counter_add x acc)) \<and>
      (\<forall>k. occurrences (counter_add x acc) k = occurrences acc k + (if x = k then 1 else 0)) \<and>
      fst ` set (counter_add x acc) = insert x (fst ` set acc)"
      using Cons.IH Cons.prems by simp
    have occ: "occurrences ((k0, c0) # ys) k = (if k = k0 then c0 else occurrences ys k)" for ys k
      by (simp add: occurrences_def)
    show ?thesis using False IH Cons.prems p k0
      by (auto simp: key_eq_JStr occ)
  qed
qed

lemma Counter_items_str:
  "list_all is_JStr xs \<Longrightarrow> list_all is_JStr (map fst acc) \<Longrightarrow> distinct (map fst acc) \<Longrightarrow>
   \<exists>items. Counter_items xs acc = Inr items \<and> distinct (map fst items) \<and>
     (\<forall>k. occurrences items k = occurrences acc k + count_list xs k) \<and>
     fst ` set items = fst ` set acc \<union> set xs"
proof (induction xs arbitrary: acc)
  case Nil
  then show ?case by simp
next
  case (Cons x xs)
  have x: "is_JStr x" and xs: "list_all is_JStr xs" using Cons.prems by simp_all
  have hx: "hashable x" using x by (cases x) auto
  note step = counter_add_str [OF Cons.prems(2) x Cons.prems(3)]
  obtain items where items: "Counter_items xs (counter_add x acc) = Inr items"
    "distinct (map fst items)"
    "\<forall>k. occurrences items k = occurrences (counter_add x acc) k + count_list xs k"
    "fst ` set items = fst ` set (counter_add x acc) \<union> set xs"
    using Cons.IH [OF xs, of "counter_add x acc"] step by blast
  show ?case
  proof (intro exI conjI)
    show "Counter_items (x # xs) acc = Inr items" using hx items(1) by simp
    show "distinct (map fst items)" by (rule items(2))
    show "\<forall>k. occurrences items k = occurrences acc k + count_list (x # xs) k"
      using items(3) step by auto
    show "fst ` set items = fst ` set acc \<union> set (x # xs)"
      using items(4) step by auto
  qed
qed

lemma duplicates_of_items:
  assumes "distinct (map fst items)"
    and "\<forall>k. occurrences items k = count_list xs k"
  shows "distinct (map fst (filter (\<lambda>item. snd item > 1) items))"
    and "set (map fst (filter (\<lambda>item. snd item > 1) items)) = {k. 1 < count_list xs k}"
proof -
  show "distinct (map fst (filter (\<lambda>item. snd item > 1) items))"
    using assms(1) by (simp add: distinct_map_filter)
  have "(k, c) \<in> set items \<longleftrightarrow> map_of items k = Some c" for k c
    using assms(1) by simp
  then have "(k, c) \<in> set items \<Longrightarrow> count_list xs k = c" for k c
    using assms(2) by (auto simp: occurrences_def split: option.splits)
  moreover have "1 < count_list xs k \<Longrightarrow> (k, count_list xs k) \<in> set items" for k
  proof -
    assume "1 < count_list xs k"
    then have "occurrences items k \<noteq> 0" using assms(2) by simp
    then obtain c where "map_of items k = Some c" by (auto simp: occurrences_def split: option.splits)
    then show ?thesis using assms(2) by (auto simp: occurrences_def dest: map_of_SomeD split: option.splits)
  qed
  ultimately show "set (map fst (filter (\<lambda>item. snd item > 1) items)) = {k. 1 < count_list xs k}"
    by force
qed

lemma count_list_filter_map:
  "count_list (filter P (map f xs)) k = (if P k then length (filter (\<lambda>x. f x = k) xs) else 0)"
  by (induction xs) auto

text \<open>
  Claim C6. For every dataset whose sites are objects with string names,
  \<^verbatim>\<open>validate_duplicates\<close> returns, without repetition, exactly the non-empty names that
  are the name of more than one site. For sites named \<open>A\<close>, \<open>b\<close>, \<open>A\<close> it returns
  exactly \<open>A\<close> (the example is evaluated after the theorem).
\<close>

theorem validate_duplicates_exact:
  assumes gd: "get_data E st = (Inr d, st1)"
    and sites: "dict_get d SITES_KEY (JArr []) = Inr (JArr sites)"
    and typed: "list_all str_named sites"
  shows "\<exists>dups. validate_duplicates E st = (Inr dups, st1) \<and> distinct dups \<and>
           (\<forall>v. v \<in> set dups \<longleftrightarrow>
              (\<exists>n. v = JStr n \<and> n \<noteq> [] \<and>
                 1 < length (filter (\<lambda>site. dict_get site NAME_KEY JNull = Inr (JStr n)) sites)))"
proof -
  define nm where "nm = (\<lambda>site. projr (dict_get site NAME_KEY JNull))"
  have nm: "dict_get site NAME_KEY JNull = Inr (nm site) \<and> (nm site = JNull \<or> is_JStr (nm site))"
    if "site \<in> set sites" for site
  proof -
    have "str_named site" using typed that by (simp add: list_all_iff)
    then show ?thesis unfolding nm_def
      by (cases site) (auto split: option.splits json.splits)
  qed
  have names: "map_exn (\<lambda>site. dict_get site NAME_KEY JNull) sites = Inr (map nm sites)"
    using nm by (intro map_exn_total) simp
  let ?names = "filter truthy (map nm sites)"
  have strs: "list_all is_JStr ?names"
  proof -
    have "is_JStr (nm site)" if "site \<in> set sites" "truthy (nm site)" for site
      using nm [OF that(1)] that(2) by (cases "nm site") auto
    then show ?thesis by (auto simp: list_all_iff)
  qed
  obtain items where items: "Counter_items ?names [] = Inr items" "distinct (map fst items)"
    "\<forall>k. occurrences items k = occurrences [] k + count_list ?names k"
    using Counter_items_str [OF strs, of "[]"] by auto
  then have occ: "\<forall>k. occurrences items k = count_list ?names k"
    by (simp add: occurrences_def)
  let ?dups = "map fst (filter (\<lambda>item. snd item > 1) items)"
  have run: "validate_duplicates E st = (Inr ?dups, st1)"
    using gd sites names items(1) by (simp add: validate_duplicates_def)
  have mem: "v \<in> set ?dups \<longleftrightarrow>
      (\<exists>n. v = JStr n \<and> n \<noteq> [] \<and>
         1 < length (filter (\<lambda>site. dict_get site NAME_KEY JNull = Inr (JStr n)) sites))" for v
  proof -
    have same: "filter (\<lambda>site. dict_get site NAME_KEY JNull = Inr (JStr n)) sites =
        filter (\<lambda>site. nm site = JStr n) sites" for n
      using nm by (intro filter_cong) auto
    have "v \<in> set ?dups \<longleftrightarrow> 1 < count_list ?names v"
      using duplicates_of_items(2) [OF items(2) occ] by auto
    also have "\<dots> \<longleftrightarrow> truthy v \<and> 1 < length (filter (\<lambda>site. nm site = v) sites)"
      by (simp add: count_list_filter_map)
    also have "\<dots> \<longleftrightarrow> (\<exists>n. v = JStr n \<and> n \<noteq> [] \<and> 1 < length (filter (\<lambda>site. nm site = JStr n) sites))"
    proof
      assume a: "truthy v \<and> 1 < length (filter (\<lambda>site. nm site = v) sites)"
      then have "filter (\<lambda>site. nm site = v) sites \<noteq> []" by auto
      then obtain site where "site \<in> set sites" "nm site = v"
        by (metis (mono_tags, lifting) filter_False)
      then have "v = JNull \<or> is_JStr v" using nm by auto
      then obtain n where "v = JStr n" using a by (cases v) auto
      then show "\<exists>n. v = JStr n \<and> n \<noteq> [] \<and> 1 < length (filter (\<lambda>site. nm site = JStr n) sites)"
        using a by auto
    next
      assume "\<exists>n. v = JStr n \<and> n \<noteq> [] \<and> 1 < length (filter (\<lambda>site. nm site = JStr n) sites)"
      then show "truthy v \<and> 1 < length (filter (\<lambda>site. nm site = v) sites)" by auto
    qed
    finally show ?thesis by (simp add: same)
  qed
  show ?thesis
    using run duplicates_of_items(1) [OF items(2) occ] mem by blast
qed

theorem validate_duplicates_exact_witness:
  "fst (validate_duplicates (ascii_runtime Map.empty)
      (bare_example\<lparr>cached_data := Some (named_sites [''A'', ''b'', ''A''])\<rparr>)) = Inr [JStr ''A'']"
proof -
  let ?st = "bare_example\<lparr>cached_data := Some (named_sites [''A'', ''b'', ''A''])\<rparr>"
  let ?sites = "map (\<lambda>n. JObj [(NAME_KEY, JStr n)]) [''A'', ''b'', ''A'']"
  have gd: "get_data (ascii_runtime Map.empty) ?st = (Inr (named_sites [''A'', ''b'', ''A'']), ?st)"
    by (simp add: get_data_def)
  have sites: "dict_get (named_sites [''A'', ''b'', ''A'']) SITES_KEY (JArr []) = Inr (JArr ?sites)"
    by (simp add: named_sites_def)
  have typed: "list_all str_named ?sites" by simp
  obtain dups where dups: "validate_duplicates (ascii_runtime Map.empty) ?st = (Inr dups, ?st)"
    "distinct dups"
    "\<forall>v. v \<in> set dups \<longleftrightarrow> (\<exists>n. v = JStr n \<and> n \<noteq> [] \<and>
        1 < length (filter (\<lambda>site. dict_get site NAME_KEY JNull = Inr (JStr n)) ?sites))"
    using validate_duplicates_exact [OF gd sites typed] by blast
  have "fst (validate_duplicates (ascii_runtime Map.empty) ?st) = Inr [JStr ''A'']"
    by (simp add: validate_duplicates_def get_data_def named_sites_def key_defs)
  then show ?thesis using dups by simp
qed

section \<open>Validation findings\<close>

text \<open>
  Claim C9 as stated fails for a violation reported at the root: its path is empty, walking
  the dataset along it arrives at the dataset itself, which is a value and not \<^verbatim>\<open>null\<close>,
  and the finding has no snippet, because \<^verbatim>\<open>_format_validation_error\<close> looks a value up
  only \<^verbatim>\<open>if error.absolute_path\<close>.
\<close>

theorem format_validation_error_root_counterexample:
  "walk unnamed_dataset (error_absolute_path root_violation) = Inr unnamed_dataset \<and>
   unnamed_dataset \<noteq> JNull \<and>
   fst (get_data (ascii_runtime Map.empty) (bare_example\<lparr>cached_data := Some unnamed_dataset\<rparr>)) =
     Inr unnamed_dataset \<and>
   data (fst (format_validation_error (ascii_runtime Map.empty) root_violation
          (bare_example\<lparr>cached_data := Some unnamed_dataset\<rparr>))) = None"
  by (simp add: root_violation_def unnamed_dataset_def format_validation_error_def get_data_def)

text \<open>
  Claim C9, amended. Building the finding never raises: it is a total function of the
  violation and the state, with the violation's path text and message. The finding
  carries a snippet exactly when the violation's path is not empty, the dataset can be
  loaded, walking it along the path arrives at a value that is not \<^verbatim>\<open>null\<close>, and that
  value serializes; the snippet is then its serialization. An empty path, a dataset that
  does not load, a failed lookup, a \<^verbatim>\<open>null\<close> and a value that does not serialize all give
  a finding without a snippet.
\<close>

theorem format_validation_error_snippet:
  "path (fst (format_validation_error E error st)) = error_json_path error \<and>
   message (fst (format_validation_error E error st)) = error_message error \<and>
   (data (fst (format_validation_error E error st)) = Some snippet \<longleftrightarrow>
      error_absolute_path error \<noteq> [] \<and>
      (\<exists>d v. fst (get_data E st) = Inr d \<and> walk d (error_absolute_path error) = Inr v \<and>
         v \<noteq> JNull \<and> json_dumps E v = Some snippet))"
proof (cases "error_absolute_path error = []")
  case True
  then show ?thesis by (simp add: format_validation_error_def)
next
  case False
  obtain r st1 where gd: "get_data E st = (r, st1)" by (cases "get_data E st")
  show ?thesis
  proof (cases r)
    case (Inl e)
    with gd False show ?thesis by (simp add: format_validation_error_def)
  next
    case (Inr d)
    show ?thesis
    proof (cases "walk d (error_absolute_path error)")
      case (Inl e)
      with gd Inr False show ?thesis by (simp add: format_validation_error_def)
    next
      case w: (Inr v)
      with gd Inr False show ?thesis by (auto simp: format_validation_error_def)
    qed
  qed
qed

theorem format_validation_error_snippet_witness:
  "data (fst (format_validation_error (ascii_runtime Map.empty) name_violation
          (bare_example\<lparr>cached_data := Some unnamed_dataset\<rparr>))) = Some ''[]''"
proof -
  let ?st = "bare_example\<lparr>cached_data := Some unnamed_dataset\<rparr>"
  have "error_absolute_path name_violation \<noteq> []" by (simp add: name_violation_def)
  moreover have "fst (get_data (ascii_runtime Map.empty) ?st) = Inr unnamed_dataset"
    by (simp add: get_data_def)
  moreover have "walk unnamed_dataset (error_absolute_path name_violation) = Inr (JArr [])"
    by (simp add: name_violation_def unnamed_dataset_def list_getitem_def)
  moreover have "json_dumps (ascii_runtime Map.empty) (JArr []) = Some ''[]''"
    by (simp add: ascii_runtime_def)
  ultimately show ?thesis
    using format_validation_error_snippet [of "ascii_runtime Map.empty" name_violation ?st "''[]''"]
    by blast
qed

section \<open>Formatting, step by step\<close>

lemma insort_decorated:
  "\<forall>p \<in> set ps. fst p = g (snd p) \<Longrightarrow>
   map snd (insort_key fst (g x, x) ps) = insort_key g x (map snd ps)"
  by (induction ps) auto

lemma sort_decorated:
  "\<forall>p \<in> set ps. fst p = g (snd p) \<Longrightarrow> map snd (sort_key fst ps) = sort_key g (map snd ps)"
proof (induction ps)
  case Nil
  then show ?case by simp
next
  case (Cons p ps)
  have "\<forall>q \<in> set (sort_key fst ps). fst q = g (snd q)" using Cons.prems by simp
  then have "map snd (insort_key fst (g (snd p), snd p) (sort_key fst ps)) =
      insort_key g (snd p) (map snd (sort_key fst ps))"
    by (rule insort_decorated)
  moreover have "p = (g (snd p), snd p)" using Cons.prems by (cases p) auto
  ultimately show ?case using Cons by (metis list.set_intros(2) list.simps(9) sort_key_simps(2))
qed

lemma py_sorted_total:
  assumes "\<And>x. x \<in> set xs \<Longrightarrow> key x = Inr (g x)"
  shows "py_sorted key xs = Inr (sort_key g xs)"
proof -
  have "map_exn key xs = Inr (map g xs)" using assms by (rule map_exn_total)
  moreover have "map snd (sort_key fst (zip (map g xs) xs)) = sort_key g (map snd (zip (map g xs) xs))"
    by (rule sort_decorated) (auto simp: in_set_zip)
  ultimately show ?thesis by (simp add: py_sorted_def)
qed

lemma map_exn_Inr_all: "map_exn f xs = Inr ys \<Longrightarrow> x \<in> set xs \<Longrightarrow> \<exists>y. f x = Inr y"
  by (induction xs arbitrary: ys) (auto split: sum.splits)

lemma to_cache_Some: "to_cache v = Some w \<longleftrightarrow> v = w \<and> v \<noteq> JNull"
  by (cases v) auto

lemma to_cache_None: "to_cache v = None \<longleftrightarrow> v = JNull"
  by (cases v) auto

lemma nonblank_str_key: "nonblank_str E v \<Longrightarrow> str_casefold E v = Inr (item_key E v)"
  by (cases v) (auto simp: item_key_def)

lemma sort_array_nonblank:
  "list_all (nonblank_str E) a \<Longrightarrow> sort_array_alphabetically E a = Inr (sort_key (item_key E) a)"
  unfolding sort_array_alphabetically_def
  by (rule py_sorted_total) (simp add: list_all_iff nonblank_str_key)

lemma site_name_key_JObj: "is_JObj site \<Longrightarrow> site_name_key E site = Inr (site_key E site)"
  by (cases site) (auto simp: site_name_key_def site_key_def split: option.splits)

lemma site_name_key_not_JObj: "\<not> is_JObj site \<Longrightarrow> site_name_key E site = Inl AttributeError"
  by (cases site) (auto simp: site_name_key_def)

lemma sort_sites_JObj:
  "list_all is_JObj sites \<Longrightarrow> sort_sites_by_name E sites = Inr (sort_key (site_key E) sites)"
  unfolding sort_sites_by_name_def
  by (rule py_sorted_total) (simp add: list_all_iff site_name_key_JObj)

lemma map_exn_Inl_first:
  "map_exn f xs = Inl e \<Longrightarrow> \<exists>x \<in> set xs. f x = Inl e"
  by (induction xs) (auto split: sum.splits)

lemma sort_sites_not_JObj:
  assumes "\<not> list_all is_JObj sites"
  shows "sort_sites_by_name E sites = Inl AttributeError"
proof -
  obtain site where site: "site \<in> set sites" "\<not> is_JObj site"
    using assms by (auto simp: list_all_iff)
  then obtain e where e: "map_exn (site_name_key E) sites = Inl e"
    by (cases "map_exn (site_name_key E) sites")
      (auto simp: site_name_key_not_JObj dest: map_exn_Inr_all)
  then obtain x where "x \<in> set sites" "site_name_key E x = Inl e"
    by (blast dest: map_exn_Inl_first)
  then have "e = AttributeError"
    by (cases "is_JObj x") (auto simp: site_name_key_JObj site_name_key_not_JObj)
  then show ?thesis using e by (simp add: sort_sites_by_name_def py_sorted_def)
qed

lemma get_data_cached: "cached_data st = Some d \<Longrightarrow> get_data E st = (Inr d, st)"
  by (simp add: get_data_def)

lemma get_data_idem: "get_data E st = (r, st1) \<Longrightarrow> get_data E st1 = (r, st1)"
  by (auto simp: get_data_def get_data_raw_def read_file_content_def to_cache_Some to_cache_None
      split: option.splits sum.splits prod.splits)

lemma get_data_state:
  "get_data E st = (r, st1) \<Longrightarrow> \<exists>raw c. st1 = st\<lparr>cached_data_raw := raw, cached_data := c\<rparr>"
proof -
  assume a: "get_data E st = (r, st1)"
  have "st1 = st\<lparr>cached_data_raw := cached_data_raw st1, cached_data := cached_data st1\<rparr>"
    using a
    by (auto simp: get_data_def get_data_raw_def split: option.splits sum.splits prod.splits)
  then show ?thesis by blast
qed

lemma get_data_JObj_cached:
  "get_data E st = (Inr (JObj kvs), st1) \<Longrightarrow> cached_data st1 = Some (JObj kvs)"
  by (auto simp: get_data_def get_data_raw_def split: option.splits sum.splits prod.splits)

lemma set_data_item_cached:
  "cached_data st = Some (JObj kvs) \<Longrightarrow>
   set_data_item E key v st = (Inr (), st\<lparr>cached_data := Some (JObj (AList.update key v kvs))\<rparr>)"
  by (simp add: set_data_item_def get_data_cached)

lemma format_string_array_cached:
  assumes "cached_data st = Some (JObj kvs)"
  shows "format_string_array E key st =
     (case string_array_step E key kvs of
        Inl e \<Rightarrow> (Inl e, st)
      | Inr kvs' \<Rightarrow> (Inr (), st\<lparr>cached_data := Some (JObj kvs')\<rparr>))"
proof (cases "map_of kvs key")
  case None
  then show ?thesis using assms
    by (simp add: format_string_array_def get_data_cached string_array_step_def)
next
  case (Some v)
  show ?thesis
  proof (cases v)
    case (JArr a)
    show ?thesis
    proof (cases "a \<noteq> [] \<and> list_all (nonblank_str E) a")
      case True
      then show ?thesis using assms Some JArr
        by (simp add: format_string_array_def get_data_cached string_array_step_def
            sort_array_nonblank set_data_item_cached)
    next
      case False
      then show ?thesis using assms Some JArr
        by (auto simp: format_string_array_def get_data_cached string_array_step_def)
    qed
  qed (use assms Some in \<open>simp_all add: format_string_array_def get_data_cached string_array_step_def\<close>)
qed

lemma format_sites_cached:
  assumes "cached_data st = Some (JObj kvs)"
  shows "format_sites E st =
     (case map_of kvs SITES_KEY of
        Some (JArr sites) \<Rightarrow>
          if list_all is_JObj sites then
            (case get_site_key_order E st of
               (Inl e, st2) \<Rightarrow> (Inl e, st2)
             | (Inr key_order, st2) \<Rightarrow>
                 (case map_exn (\<lambda>site. format_site E site key_order) (sort_key (site_key E) sites) of
                    Inl e \<Rightarrow> (Inl e, st2)
                  | Inr formatted \<Rightarrow> set_data_item E SITES_KEY (JArr formatted) st2))
          else (Inl AttributeError, st)
      | _ \<Rightarrow> (Inl WMNFormatError, st))"
proof (cases "map_of kvs SITES_KEY")
  case None
  then show ?thesis using assms by (simp add: format_sites_def get_data_cached)
next
  case (Some v)
  show ?thesis
  proof (cases v)
    case (JArr sites)
    show ?thesis
    proof (cases "list_all is_JObj sites")
      case True
      then show ?thesis using assms Some JArr
        by (simp add: format_sites_def get_data_cached sort_sites_JObj)
    next
      case False
      then show ?thesis using assms Some JArr
        by (simp add: format_sites_def get_data_cached sort_sites_not_JObj)
    qed
  qed (use assms Some in \<open>simp_all add: format_sites_def get_data_cached\<close>)
qed

section \<open>Formatting one site\<close>

lemma reorder_site_keys_pick:
  "reorder_site_keys (JObj kvs) key_order =
     (if fst ` set kvs \<subseteq> set key_order then Inr (JObj (fold (pick kvs) key_order []))
      else Inl WMNFormatError)"
proof -
  have "filter (\<lambda>key. key \<notin> set key_order) (map fst kvs) = [] \<longleftrightarrow> fst ` set kvs \<subseteq> set key_order"
    by (auto simp: filter_empty_conv)
  moreover have "(\<lambda>key result. case map_of kvs key of Some v \<Rightarrow> AList.update key v result | None \<Rightarrow> result) = pick kvs"
    by (simp add: pick_def fun_eq_iff)
  ultimately show ?thesis by (simp add: reorder_site_keys_def Let_def)
qed

lemma map_of_fold_pick:
  "map_of (fold (pick kvs) ko acc) k =
     (if k \<in> set ko \<and> map_of kvs k \<noteq> None then map_of kvs k else map_of acc k)"
  by (induction ko arbitrary: acc) (auto simp: pick_def AList.update_conv' split: option.splits)

lemma fold_pick_cong:
  "(\<And>k. k \<in> set ko \<Longrightarrow> map_of kvs k = map_of kvs' k) \<Longrightarrow>
   fold (pick kvs) ko acc = fold (pick kvs') ko acc"
  by (induction ko arbitrary: acc) (auto simp: pick_def)

lemma update_absent: "k \<notin> fst ` set al \<Longrightarrow> AList.update k v al = al @ [(k, v)]"
  by (induction al) auto

lemma keys_fold_pick:
  "distinct ko \<Longrightarrow> set ko \<inter> fst ` set acc = {} \<Longrightarrow>
   map fst (fold (pick kvs) ko acc) = map fst acc @ filter (\<lambda>k. k \<in> fst ` set kvs) ko"
proof (induction ko arbitrary: acc)
  case Nil
  then show ?case by simp
next
  case (Cons k ko)
  show ?case
  proof (cases "map_of kvs k")
    case None
    then have "k \<notin> fst ` set kvs" by (simp add: map_of_eq_None_iff)
    moreover have "pick kvs k acc = acc" using None by (simp add: pick_def)
    ultimately show ?thesis using Cons by simp
  next
    case (Some v)
    then have in_kvs: "k \<in> fst ` set kvs" by (metis map_of_eq_None_iff option.distinct(1))
    have "k \<notin> fst ` set acc" using Cons.prems by auto
    then have step: "pick kvs k acc = acc @ [(k, v)]" using Some by (simp add: pick_def update_absent)
    have "set ko \<inter> fst ` set (acc @ [(k, v)]) = {}" using Cons.prems by auto
    then have "map fst (fold (pick kvs) ko (acc @ [(k, v)])) =
        map fst (acc @ [(k, v)]) @ filter (\<lambda>k. k \<in> fst ` set kvs) ko"
      using Cons.IH Cons.prems by simp
    then show ?thesis using step in_kvs by simp
  qed
qed

lemma map_of_reordered:
  assumes "fst ` set kvs \<subseteq> set ko"
  shows "map_of (fold (pick kvs) ko []) = map_of kvs"
proof
  fix k
  have "k \<notin> set ko \<Longrightarrow> map_of kvs k = None"
    using assms by (auto simp: map_of_eq_None_iff)
  then show "map_of (fold (pick kvs) ko []) k = map_of kvs k"
    by (auto simp: map_of_fold_pick)
qed

lemma keys_of_map_of_eq: "map_of a = map_of b \<Longrightarrow> fst ` set a = fst ` set b"
  by (metis dom_map_of_conv_image_fst)

lemma sort_site_headers_JObj:
  "sort_site_headers E (JObj kvs) =
     Inr (JObj (case map_of kvs HEADERS_KEY of
                  Some (JObj headers) \<Rightarrow>
                    if headers \<noteq> [] then
                      AList.update HEADERS_KEY (JObj (sort_key (header_key E) headers)) kvs
                    else kvs
                | _ \<Rightarrow> kvs))"
proof -
  have "(\<lambda>item. casefold E (fst item)) = header_key E" by (simp add: header_key_def fun_eq_iff)
  then show ?thesis
    by (simp add: sort_site_headers_def split: option.splits json.splits)
qed

lemma sort_site_headers_keys:
  assumes "sort_site_headers E (JObj kvs) = Inr (JObj kvs1)"
  shows "map fst kvs1 = map fst kvs"
    and "k \<noteq> HEADERS_KEY \<Longrightarrow> map_of kvs1 k = map_of kvs k"
proof -
  have *: "map_of kvs HEADERS_KEY = Some v \<Longrightarrow> HEADERS_KEY \<in> set (map fst kvs)" for v
    by (metis map_of_eq_None_iff image_set option.distinct(1))
  show "map fst kvs1 = map fst kvs"
  proof (cases "\<exists>headers. map_of kvs HEADERS_KEY = Some (JObj headers) \<and> headers \<noteq> []")
    case True
    then obtain headers where hs: "map_of kvs HEADERS_KEY = Some (JObj headers)" "headers \<noteq> []"
      by blast
    then have "kvs1 = AList.update HEADERS_KEY (JObj (sort_key (header_key E) headers)) kvs"
      using assms by (simp add: sort_site_headers_JObj)
    then show ?thesis using * [OF hs(1)] by (simp add: AList.update_keys)
  next
    case False
    then have "kvs1 = kvs" using assms
      by (auto simp: sort_site_headers_JObj split: option.splits json.splits if_splits)
    then show ?thesis by simp
  qed
  show "k \<noteq> HEADERS_KEY \<Longrightarrow> map_of kvs1 k = map_of kvs k"
    using assms by (auto simp: sort_site_headers_JObj AList.update_conv' split: option.splits json.splits if_splits)
qed

lemma sort_key_twice: "sort_key f (sort_key f xs) = sort_key f xs"
  by (simp add: sort_key_id_if_sorted)

text \<open>Headers that were sorted stay as they are, in any object that holds them.\<close>

lemma sort_site_headers_again:
  assumes "sort_site_headers E (JObj kvs) = Inr (JObj kvs1)"
    and "map_of r HEADERS_KEY = map_of kvs1 HEADERS_KEY"
  shows "sort_site_headers E (JObj r) = Inr (JObj r)"
proof (cases "map_of kvs HEADERS_KEY")
  case None
  then have "kvs1 = kvs" using assms(1) by (simp add: sort_site_headers_JObj)
  then show ?thesis using assms(2) None by (simp add: sort_site_headers_JObj)
next
  case (Some v)
  show ?thesis
  proof (cases "\<exists>headers. v = JObj headers \<and> headers \<noteq> []")
    case True
    then obtain headers where v: "v = JObj headers" "headers \<noteq> []" by blast
    let ?hs = "sort_key (header_key E) headers"
    have "kvs1 = AList.update HEADERS_KEY (JObj ?hs) kvs"
      using assms(1) Some v by (simp add: sort_site_headers_JObj)
    then have r: "map_of r HEADERS_KEY = Some (JObj ?hs)"
      using assms(2) by (simp add: AList.update_conv')
    have ne: "?hs \<noteq> []" using v(2) by (metis length_0_conv length_sort)
    have "sort_site_headers E (JObj r) = Inr (JObj (AList.update HEADERS_KEY (JObj ?hs) r))"
      using r ne by (simp add: sort_site_headers_JObj sort_key_twice)
    then show ?thesis using r by (simp add: AList.update_triv)
  next
    case False
    then have "kvs1 = kvs" using assms(1) Some
      by (auto simp: sort_site_headers_JObj split: json.splits if_splits)
    then show ?thesis using assms(2) Some False
      by (auto simp: sort_site_headers_JObj split: json.splits)
  qed
qed

lemma format_site_JObj:
  "format_site E (JObj kvs) ko =
     (if fst ` set kvs \<subseteq> set ko then
        (case sort_site_headers E (JObj kvs) of
           Inr (JObj kvs1) \<Rightarrow> Inr (JObj (fold (pick kvs1) ko []))
         | other \<Rightarrow> other)
      else Inl WMNFormatError)"
proof -
  obtain kvs1 where h: "sort_site_headers E (JObj kvs) = Inr (JObj kvs1)"
    by (simp add: sort_site_headers_JObj)
  have "fst ` set kvs1 = fst ` set kvs"
    using sort_site_headers_keys(1) [OF h] by (metis image_set)
  then show ?thesis using h by (simp add: format_site_def reorder_site_keys_pick)
qed

lemma format_site_Inr:
  assumes "format_site E (JObj kvs) ko = Inr f"
  obtains kvs1 where "sort_site_headers E (JObj kvs) = Inr (JObj kvs1)"
    and "f = JObj (fold (pick kvs1) ko [])" and "fst ` set kvs \<subseteq> set ko"
    and "map_of (fold (pick kvs1) ko []) = map_of kvs1"
proof -
  obtain kvs1 where h: "sort_site_headers E (JObj kvs) = Inr (JObj kvs1)"
    by (simp add: sort_site_headers_JObj)
  have sub: "fst ` set kvs \<subseteq> set ko" using assms by (auto simp: format_site_JObj split: if_splits)
  have "fst ` set kvs1 = fst ` set kvs"
    using sort_site_headers_keys(1) [OF h] by (metis image_set)
  then have "map_of (fold (pick kvs1) ko []) = map_of kvs1" using sub by (simp add: map_of_reordered)
  moreover have "f = JObj (fold (pick kvs1) ko [])" using assms h sub by (simp add: format_site_JObj)
  ultimately show ?thesis using that h sub by blast
qed

lemma format_site_idem:
  assumes "format_site E (JObj kvs) ko = Inr f"
  shows "format_site E f ko = Inr f"
proof -
  obtain kvs1 where h: "sort_site_headers E (JObj kvs) = Inr (JObj kvs1)"
    and f: "f = JObj (fold (pick kvs1) ko [])" and sub: "fst ` set kvs \<subseteq> set ko"
    and m: "map_of (fold (pick kvs1) ko []) = map_of kvs1"
    using assms by (rule format_site_Inr)
  let ?r = "fold (pick kvs1) ko []"
  have again: "sort_site_headers E (JObj ?r) = Inr (JObj ?r)"
    using h m by (intro sort_site_headers_again [where kvs = kvs]) simp_all
  have keys: "fst ` set ?r \<subseteq> set ko"
    using keys_of_map_of_eq [OF m] sort_site_headers_keys(1) [OF h] sub by (metis image_set)
  have "fold (pick ?r) ko [] = ?r"
    using m by (intro fold_pick_cong) simp
  then show ?thesis using again keys f by (simp add: format_site_JObj)
qed

lemma format_site_key:
  assumes "format_site E (JObj kvs) ko = Inr f"
  shows "is_JObj f" and "site_name_key E f = site_name_key E (JObj kvs)"
proof -
  obtain kvs1 where h: "sort_site_headers E (JObj kvs) = Inr (JObj kvs1)"
    and f: "f = JObj (fold (pick kvs1) ko [])"
    and m: "map_of (fold (pick kvs1) ko []) = map_of kvs1"
    using assms by (rule format_site_Inr)
  show "is_JObj f" using f by simp
  have "map_of kvs1 NAME_KEY = map_of kvs NAME_KEY"
    using sort_site_headers_keys(2) [OF h, of NAME_KEY] by (simp add: key_defs)
  then show "site_name_key E f = site_name_key E (JObj kvs)"
    using f m by (simp add: site_name_key_def)
qed

lemma format_site_keys:
  assumes "format_site E (JObj kvs) ko = Inr f" and "distinct ko"
  shows "\<exists>fields. f = JObj fields \<and> map fst fields = filter (\<lambda>k. k \<in> fst ` set kvs) ko"
proof -
  obtain kvs1 where h: "sort_site_headers E (JObj kvs) = Inr (JObj kvs1)"
    and f: "f = JObj (fold (pick kvs1) ko [])"
    using assms(1) by (rule format_site_Inr)
  have "fst ` set kvs1 = fst ` set kvs"
    using sort_site_headers_keys(1) [OF h] by (metis image_set)
  then show ?thesis using f keys_fold_pick [OF assms(2), of "[]" kvs1] by simp
qed

section \<open>Formatting the dataset\<close>

lemma get_schema_data_update:
  "get_schema E (st\<lparr>cached_data := c\<rparr>) =
     (fst (get_schema E st), (snd (get_schema E st))\<lparr>cached_data := c\<rparr>)"
  by (auto simp: get_schema_def get_schema_raw_def read_file_content_def
      split: option.splits sum.splits prod.splits read_error.splits)

lemma get_schema_data_raw_update:
  "get_schema E (st\<lparr>cached_data_raw := c\<rparr>) =
     (fst (get_schema E st), (snd (get_schema E st))\<lparr>cached_data_raw := c\<rparr>)"
  by (auto simp: get_schema_def get_schema_raw_def read_file_content_def
      split: option.splits sum.splits prod.splits read_error.splits)

lemma get_schema_idem: "get_schema E st = (r, st1) \<Longrightarrow> get_schema E st1 = (r, st1)"
  by (auto simp: get_schema_def get_schema_raw_def read_file_content_def to_cache_Some to_cache_None
      split: option.splits sum.splits prod.splits)

lemma get_schema_state:
  "get_schema E st = (r, st1) \<Longrightarrow>
   st1 = st\<lparr>cached_schema_raw := cached_schema_raw st1, cached_schema := cached_schema st1\<rparr>"
  by (auto simp: get_schema_def get_schema_raw_def split: option.splits sum.splits prod.splits)

lemma get_site_key_order_data_update:
  "get_site_key_order E (st\<lparr>cached_data := c\<rparr>) =
     (fst (get_site_key_order E st), (snd (get_site_key_order E st))\<lparr>cached_data := c\<rparr>)"
  by (simp add: get_site_key_order_def get_schema_data_update split: prod.splits sum.splits json.splits)

lemma get_site_key_order_data_raw_update:
  "get_site_key_order E (st\<lparr>cached_data_raw := c\<rparr>) =
     (fst (get_site_key_order E st), (snd (get_site_key_order E st))\<lparr>cached_data_raw := c\<rparr>)"
  by (simp add: get_site_key_order_def get_schema_data_raw_update split: prod.splits sum.splits json.splits)

lemma get_site_key_order_idem:
  "get_site_key_order E st = (r, st1) \<Longrightarrow> get_site_key_order E st1 = (r, st1)"
  by (auto simp: get_site_key_order_def split: prod.splits sum.splits json.splits dest: get_schema_idem)

lemma get_site_key_order_state:
  "get_site_key_order E st = (r, st1) \<Longrightarrow>
   st1 = st\<lparr>cached_schema_raw := cached_schema_raw st1, cached_schema := cached_schema st1\<rparr>"
  by (auto simp: get_site_key_order_def split: prod.splits sum.splits json.splits dest: get_schema_state)

lemma format_string_array_update:
  "format_string_array E key (st\<lparr>cached_data := Some (JObj kvs)\<rparr>) =
     (case string_array_step E key kvs of
        Inl e \<Rightarrow> (Inl e, st\<lparr>cached_data := Some (JObj kvs)\<rparr>)
      | Inr kvs' \<Rightarrow> (Inr (), st\<lparr>cached_data := Some (JObj kvs')\<rparr>))"
  using format_string_array_cached [of "st\<lparr>cached_data := Some (JObj kvs)\<rparr>" kvs E key]
  by (simp split: sum.splits)

lemma format_sites_update:
  "format_sites E (st\<lparr>cached_data := Some (JObj kvs)\<rparr>) =
     (case map_of kvs SITES_KEY of
        Some (JArr sites) \<Rightarrow>
          if list_all is_JObj sites then
            (case fst (get_site_key_order E st) of
               Inl e \<Rightarrow> (Inl e, (snd (get_site_key_order E st))\<lparr>cached_data := Some (JObj kvs)\<rparr>)
             | Inr key_order \<Rightarrow>
                 (case map_exn (\<lambda>site. format_site E site key_order) (sort_key (site_key E) sites) of
                    Inl e \<Rightarrow> (Inl e, (snd (get_site_key_order E st))\<lparr>cached_data := Some (JObj kvs)\<rparr>)
                  | Inr formatted \<Rightarrow>
                      (Inr (), (snd (get_site_key_order E st))
                         \<lparr>cached_data := Some (JObj (AList.update SITES_KEY (JArr formatted) kvs))\<rparr>)))
          else (Inl AttributeError, st\<lparr>cached_data := Some (JObj kvs)\<rparr>)
      | _ \<Rightarrow> (Inl WMNFormatError, st\<lparr>cached_data := Some (JObj kvs)\<rparr>))"
  using format_sites_cached [of "st\<lparr>cached_data := Some (JObj kvs)\<rparr>" kvs E]
  by (simp add: get_site_key_order_data_update set_data_item_cached
      split: sum.splits option.splits json.splits)

lemma format_data_update_result:
  "fst (format_data E (st\<lparr>cached_data := Some (JObj kvs)\<rparr>)) =
     (case format_fields E (fst (get_site_key_order E st)) kvs of
        Inl e \<Rightarrow> Inl e
      | Inr kvs' \<Rightarrow>
          (case json_dumps E (JObj kvs') of None \<Rightarrow> Inl WMNFormatError | Some text \<Rightarrow> Inr text))"
  by (simp add: format_data_def format_fields_def format_string_array_update format_sites_update
      get_data_cached split: sum.splits option.splits json.splits)

lemma format_data_update_Inr:
  assumes "format_fields E (fst (get_site_key_order E st)) kvs = Inr kvs'"
  shows "snd (format_data E (st\<lparr>cached_data := Some (JObj kvs)\<rparr>)) =
     (snd (get_site_key_order E st))\<lparr>cached_data := Some (JObj kvs')\<rparr>"
  using assms
  by (auto simp: format_data_def format_fields_def format_string_array_update format_sites_update
      get_data_cached split: sum.splits option.splits json.splits if_splits)

lemma format_data_update_frame:
  "disk (snd (format_data E (st\<lparr>cached_data := Some (JObj kvs)\<rparr>))) = disk st \<and>
   write_log (snd (format_data E (st\<lparr>cached_data := Some (JObj kvs)\<rparr>))) = write_log st \<and>
   data_path (snd (format_data E (st\<lparr>cached_data := Some (JObj kvs)\<rparr>))) = data_path st \<and>
   schema_path (snd (format_data E (st\<lparr>cached_data := Some (JObj kvs)\<rparr>))) = schema_path st \<and>
   cached_data_raw (snd (format_data E (st\<lparr>cached_data := Some (JObj kvs)\<rparr>))) = cached_data_raw st"
proof -
  obtain r st2 where K: "get_site_key_order E st = (r, st2)" by (cases "get_site_key_order E st")
  have "disk st2 = disk st \<and> write_log st2 = write_log st \<and> data_path st2 = data_path st \<and>
      schema_path st2 = schema_path st \<and> cached_data_raw st2 = cached_data_raw st"
    using get_site_key_order_state [OF K] by (metis (no_types, lifting) wmn.select_convs wmn.surjective wmn.update_convs)
  then show ?thesis using K
    by (auto simp: format_data_def format_string_array_update format_sites_update
      get_data_cached split: sum.splits option.splits json.splits if_splits)
qed

lemma state_cached_data: "cached_data st = Some d \<Longrightarrow> st = st\<lparr>cached_data := Some d\<rparr>"
  by simp

lemma format_string_array_loaded:
  "get_data E st = (r, st1) \<Longrightarrow> format_string_array E key st = format_string_array E key st1"
  by (simp add: format_string_array_def get_data_idem)

lemma format_data_loaded:
  "get_data E st = (r, st1) \<Longrightarrow> format_data E st = format_data E st1"
  by (simp add: format_data_def format_string_array_loaded)

lemma get_site_key_order_loaded:
  assumes "get_data E st = (r, st1)"
  shows "fst (get_site_key_order E st1) = fst (get_site_key_order E st)"
    and "snd (get_site_key_order E st1) =
      (snd (get_site_key_order E st))\<lparr>cached_data_raw := cached_data_raw st1, cached_data := cached_data st1\<rparr>"
proof -
  obtain raw c where st1: "st1 = st\<lparr>cached_data_raw := raw, cached_data := c\<rparr>"
    using get_data_state [OF assms] by blast
  show "fst (get_site_key_order E st1) = fst (get_site_key_order E st)"
    by (simp add: st1 get_site_key_order_data_update get_site_key_order_data_raw_update)
  show "snd (get_site_key_order E st1) =
      (snd (get_site_key_order E st))\<lparr>cached_data_raw := cached_data_raw st1, cached_data := cached_data st1\<rparr>"
    by (simp add: st1 get_site_key_order_data_update get_site_key_order_data_raw_update)
qed

text \<open>A run of \<^verbatim>\<open>format_data\<close> that returns, in terms of the fields it started from.\<close>

lemma format_data_Inr:
  assumes run: "format_data E st = (Inr out, st')"
  obtains kvs kvs' st1 where "get_data E st = (Inr (JObj kvs), st1)"
    and "format_fields E (fst (get_site_key_order E st)) kvs = Inr kvs'"
    and "json_dumps E (JObj kvs') = Some out"
    and "st' = (snd (get_site_key_order E st1))\<lparr>cached_data := Some (JObj kvs')\<rparr>"
proof -
  obtain r st1 where gd: "get_data E st = (r, st1)" by (cases "get_data E st")
  have run1: "format_data E st1 = (Inr out, st')" using run format_data_loaded [OF gd] by simp
  have "\<exists>kvs. r = Inr (JObj kvs)"
  proof (rule ccontr)
    assume "\<not> (\<exists>kvs. r = Inr (JObj kvs))"
    then have "\<exists>e. fst (format_string_array E AUTHORS_KEY st) = Inl e"
      using gd by (cases r; cases "projr r") (auto simp: format_string_array_def)
    then show False using run by (auto simp: format_data_def split: prod.splits sum.splits)
  qed
  then obtain kvs where r: "r = Inr (JObj kvs)" by blast
  have c: "cached_data st1 = Some (JObj kvs)" using gd r by (simp add: get_data_JObj_cached)
  have st1: "st1 = st1\<lparr>cached_data := Some (JObj kvs)\<rparr>" using c by simp
  have res: "fst (format_data E st1) =
     (case format_fields E (fst (get_site_key_order E st1)) kvs of
        Inl e \<Rightarrow> Inl e
      | Inr kvs' \<Rightarrow>
          (case json_dumps E (JObj kvs') of None \<Rightarrow> Inl WMNFormatError | Some text \<Rightarrow> Inr text))"
    using format_data_update_result [where E = E and st = st1 and kvs = kvs] st1 by simp
  then obtain kvs' where f: "format_fields E (fst (get_site_key_order E st1)) kvs = Inr kvs'"
    and d: "json_dumps E (JObj kvs') = Some out"
    using run1 by (auto split: sum.splits option.splits)
  have "snd (format_data E st1) = (snd (get_site_key_order E st1))\<lparr>cached_data := Some (JObj kvs')\<rparr>"
    using format_data_update_Inr [OF f] st1 by simp
  then have "st' = (snd (get_site_key_order E st1))\<lparr>cached_data := Some (JObj kvs')\<rparr>"
    using run1 by simp
  then show ?thesis using that gd r f d get_site_key_order_loaded(1) [OF gd] by simp
qed

lemma format_data_frame:
  assumes "format_data E st = (r, st')"
  shows "disk st' = disk st" "write_log st' = write_log st"
    "data_path st' = data_path st" "schema_path st' = schema_path st"
proof -
  obtain r0 st1 where gd: "get_data E st = (r0, st1)" by (cases "get_data E st")
  obtain raw c where st1: "st1 = st\<lparr>cached_data_raw := raw, cached_data := c\<rparr>"
    using get_data_state [OF gd] by blast
  have run1: "format_data E st1 = (r, st')" using assms format_data_loaded [OF gd] by simp
  have "disk st' = disk st \<and> write_log st' = write_log st \<and>
    data_path st' = data_path st \<and> schema_path st' = schema_path st"
  proof (cases "\<exists>kvs. r0 = Inr (JObj kvs)")
    case True
    then obtain kvs where r0: "r0 = Inr (JObj kvs)" by blast
    have "cached_data st1 = Some (JObj kvs)" using gd r0 by (simp add: get_data_JObj_cached)
    then have "st1 = st1\<lparr>cached_data := Some (JObj kvs)\<rparr>" by simp
    then show ?thesis using format_data_update_frame [where E = E and st = st1 and kvs = kvs] run1 st1 by simp
  next
    case False
    then have "snd (format_string_array E AUTHORS_KEY st) = st1"
      using gd by (cases r0; cases "projr r0") (auto simp: format_string_array_def)
    moreover have "\<exists>e. fst (format_string_array E AUTHORS_KEY st) = Inl e"
      using False gd by (cases r0; cases "projr r0") (auto simp: format_string_array_def)
    ultimately have "st' = st1" using assms by (auto simp: format_data_def split: prod.splits sum.splits)
    then show ?thesis using st1 by simp
  qed
  then show "disk st' = disk st" "write_log st' = write_log st"
    "data_path st' = data_path st" "schema_path st' = schema_path st" by simp_all
qed

lemma map_exn_list_all2: "map_exn f xs = Inr ys \<longleftrightarrow> list_all2 (\<lambda>x y. f x = Inr y) xs ys"
proof (induction xs arbitrary: ys)
  case Nil
  then show ?case by auto
next
  case (Cons x xs)
  show ?case
  proof (cases ys)
    case Nil
    then show ?thesis by (auto split: sum.splits)
  next
    case (Cons y ys')
    then show ?thesis using Cons.IH [of ys'] by (auto split: sum.splits)
  qed
qed

lemma string_array_step_Inl: "string_array_step E key kvs = Inl e \<Longrightarrow> e = WMNFormatError"
  by (auto simp: string_array_step_def split: option.splits json.splits if_splits)

lemma string_array_step_Inr:
  assumes "string_array_step E key kvs = Inr kvs1"
  obtains a where "map_of kvs key = Some (JArr a)" "a \<noteq> []" "list_all (nonblank_str E) a"
    and "kvs1 = AList.update key (JArr (sort_key (item_key E) a)) kvs"
  using assms by (auto simp: string_array_step_def split: option.splits json.splits if_splits)

lemma string_array_step_other:
  "string_array_step E key kvs = Inr kvs1 \<Longrightarrow> k \<noteq> key \<Longrightarrow> map_of kvs1 k = map_of kvs k"
  by (erule string_array_step_Inr) (simp add: AList.update_conv')

lemma string_array_step_sorted:
  assumes "map_of kvs key = Some (JArr (sort_key (item_key E) a))" "a \<noteq> []"
    "list_all (nonblank_str E) a"
  shows "string_array_step E key kvs = Inr kvs"
proof -
  have "sort_key (item_key E) a \<noteq> []" using assms(2) by (metis length_0_conv length_sort)
  moreover have "list_all (nonblank_str E) (sort_key (item_key E) a)"
    using assms(3) by (simp add: list_all_iff)
  ultimately show ?thesis using assms(1)
    by (simp add: string_array_step_def sort_key_twice AList.update_triv)
qed

lemma format_fields_Inr:
  assumes "format_fields E (Inr ko) kvs = Inr kvs'"
  obtains a c sites formatted where
    "map_of kvs AUTHORS_KEY = Some (JArr a)" "a \<noteq> []" "list_all (nonblank_str E) a"
    "map_of kvs CATEGORIES_KEY = Some (JArr c)" "c \<noteq> []" "list_all (nonblank_str E) c"
    "map_of kvs SITES_KEY = Some (JArr sites)" "list_all is_JObj sites"
    "map_exn (\<lambda>site. format_site E site ko) (sort_key (site_key E) sites) = Inr formatted"
    "kvs' = AList.update SITES_KEY (JArr formatted)
       (AList.update CATEGORIES_KEY (JArr (sort_key (item_key E) c))
         (AList.update AUTHORS_KEY (JArr (sort_key (item_key E) a)) kvs))"
proof -
  obtain kvs1 where s1: "string_array_step E AUTHORS_KEY kvs = Inr kvs1"
    using assms by (auto simp: format_fields_def split: sum.splits)
  obtain kvs2 where s2: "string_array_step E CATEGORIES_KEY kvs1 = Inr kvs2"
    using assms s1 by (auto simp: format_fields_def split: sum.splits)
  obtain a where a: "map_of kvs AUTHORS_KEY = Some (JArr a)" "a \<noteq> []" "list_all (nonblank_str E) a"
    "kvs1 = AList.update AUTHORS_KEY (JArr (sort_key (item_key E) a)) kvs"
    using s1 by (rule string_array_step_Inr)
  obtain c where c: "map_of kvs1 CATEGORIES_KEY = Some (JArr c)" "c \<noteq> []" "list_all (nonblank_str E) c"
    "kvs2 = AList.update CATEGORIES_KEY (JArr (sort_key (item_key E) c)) kvs1"
    using s2 by (rule string_array_step_Inr)
  have c0: "map_of kvs CATEGORIES_KEY = Some (JArr c)"
    using c(1) string_array_step_other [OF s1, of CATEGORIES_KEY] by (simp add: key_defs)
  have sites2: "map_of kvs2 SITES_KEY = map_of kvs SITES_KEY"
    using string_array_step_other [OF s1, of SITES_KEY] string_array_step_other [OF s2, of SITES_KEY]
    by (simp add: key_defs)
  obtain sites formatted where s: "map_of kvs2 SITES_KEY = Some (JArr sites)" "list_all is_JObj sites"
    "map_exn (\<lambda>site. format_site E site ko) (sort_key (site_key E) sites) = Inr formatted"
    "kvs' = AList.update SITES_KEY (JArr formatted) kvs2"
    using assms s1 s2 by (auto simp: format_fields_def split: sum.splits option.splits json.splits if_splits)
  show ?thesis using that [OF a(1-3) c0 c(2,3) _ s(2,3)] s(1,4) sites2 a(4) c(4) by simp
qed

lemma formatted_sites:
  assumes all: "list_all is_JObj sorted_sites"
    and fm: "map_exn (\<lambda>site. format_site E site ko) sorted_sites = Inr formatted"
  shows "list_all is_JObj formatted"
    and "map (site_name_key E) formatted = map (site_name_key E) sorted_sites"
    and "map_exn (\<lambda>site. format_site E site ko) formatted = Inr formatted"
proof -
  have rel: "list_all2 (\<lambda>x y. format_site E x ko = Inr y) sorted_sites formatted"
    using fm by (simp add: map_exn_list_all2)
  have each: "is_JObj y \<and> site_name_key E y = site_name_key E x \<and> format_site E y ko = Inr y"
    if "x \<in> set sorted_sites" "format_site E x ko = Inr y" for x y
  proof -
    have "is_JObj x" using all that(1) by (simp add: list_all_iff)
    then obtain kvs where "x = JObj kvs" by (cases x) auto
    then show ?thesis using that(2) format_site_key format_site_idem by blast
  qed
  have rel2: "list_all2 (\<lambda>x y. is_JObj y \<and> site_name_key E y = site_name_key E x \<and>
      format_site E y ko = Inr y) sorted_sites formatted"
    using rel by (rule list.rel_mono_strong) (use each in blast)
  show "list_all is_JObj formatted"
    using rel2 by (auto simp: list_all2_conv_all_nth list_all_length)
  show "map (site_name_key E) formatted = map (site_name_key E) sorted_sites"
    using rel2 by (auto simp: list_all2_conv_all_nth intro: nth_equalityI)
  have "list_all2 (\<lambda>x y. format_site E x ko = Inr y) formatted formatted"
    using rel2 by (auto simp: list_all2_conv_all_nth)
  then show "map_exn (\<lambda>site. format_site E site ko) formatted = Inr formatted"
    by (simp add: map_exn_list_all2)
qed

lemma site_key_of_name_key:
  "map (site_name_key E) xs = map (site_name_key E) ys \<Longrightarrow> map (site_key E) xs = map (site_key E) ys"
proof -
  assume "map (site_name_key E) xs = map (site_name_key E) ys"
  then have "map (projr \<circ> site_name_key E) xs = map (projr \<circ> site_name_key E) ys"
    by (metis map_map)
  moreover have "site_key E = projr \<circ> site_name_key E" by (simp add: site_key_def fun_eq_iff)
  ultimately show ?thesis by simp
qed

lemma format_fields_idem:
  assumes "format_fields E (Inr ko) kvs = Inr kvs'"
  shows "format_fields E (Inr ko) kvs' = Inr kvs'"
proof -
  obtain a c sites formatted where
    a: "map_of kvs AUTHORS_KEY = Some (JArr a)" "a \<noteq> []" "list_all (nonblank_str E) a"
    and c: "map_of kvs CATEGORIES_KEY = Some (JArr c)" "c \<noteq> []" "list_all (nonblank_str E) c"
    and s: "map_of kvs SITES_KEY = Some (JArr sites)" "list_all is_JObj sites"
      "map_exn (\<lambda>site. format_site E site ko) (sort_key (site_key E) sites) = Inr formatted"
    and kvs': "kvs' = AList.update SITES_KEY (JArr formatted)
       (AList.update CATEGORIES_KEY (JArr (sort_key (item_key E) c))
         (AList.update AUTHORS_KEY (JArr (sort_key (item_key E) a)) kvs))"
    using assms by (rule format_fields_Inr)
  have a': "map_of kvs' AUTHORS_KEY = Some (JArr (sort_key (item_key E) a))"
    and c': "map_of kvs' CATEGORIES_KEY = Some (JArr (sort_key (item_key E) c))"
    and s': "map_of kvs' SITES_KEY = Some (JArr formatted)"
    by (simp_all add: kvs' AList.update_conv' key_defs)
  have step1: "string_array_step E AUTHORS_KEY kvs' = Inr kvs'"
    using a' a(2,3) by (rule string_array_step_sorted)
  have step2: "string_array_step E CATEGORIES_KEY kvs' = Inr kvs'"
    using c' c(2,3) by (rule string_array_step_sorted)
  have sorted_all: "list_all is_JObj (sort_key (site_key E) sites)"
    using s(2) by (simp add: list_all_iff)
  note fm = formatted_sites [OF sorted_all s(3)]
  have "map (site_key E) formatted = map (site_key E) (sort_key (site_key E) sites)"
    using fm(2) by (rule site_key_of_name_key)
  then have "sorted (map (site_key E) formatted)" by simp
  then have id: "sort_key (site_key E) formatted = formatted" by (rule sort_key_id_if_sorted)
  show ?thesis
    using step1 step2 s' fm(1,3) id by (simp add: format_fields_def AList.update_triv)
qed

lemma get_schema_Inr_cached:
  "get_schema E st = (Inr sch, st1) \<Longrightarrow> sch \<noteq> JNull \<Longrightarrow> cached_schema st1 = Some sch"
  by (auto simp: get_schema_def get_schema_raw_def to_cache_Some
      split: option.splits sum.splits prod.splits)

lemma get_site_key_order_cached:
  assumes "get_site_key_order E st = (Inr ko, st1)" and "cached_schema st2 = cached_schema st1"
  shows "get_site_key_order E st2 = (Inr ko, st2)"
proof -
  obtain sch where sch: "get_schema E st = (Inr sch, st1)"
    using assms(1)
    by (auto simp: get_site_key_order_def split: prod.splits sum.splits json.splits)
  have "sch \<noteq> JNull" using assms(1) sch
    by (auto simp: get_site_key_order_def site_schema_properties_def)
  then have "cached_schema st2 = Some sch" using get_schema_Inr_cached [OF sch] assms(2) by simp
  then have "get_schema E st2 = (Inr sch, st2)" by (simp add: get_schema_def)
  then show ?thesis using assms(1) sch
    by (auto simp: get_site_key_order_def split: sum.splits json.splits)
qed

text \<open>A second run on the structure a first run left in the cache returns the same text.\<close>

lemma format_data_again:
  assumes run: "format_data E st = (Inr out, st')"
    and st2: "cached_data st2 = cached_data st'" "cached_schema st2 = cached_schema st'"
  shows "format_data E st2 = (Inr out, st2)"
proof -
  obtain kvs kvs' st1 where gd: "get_data E st = (Inr (JObj kvs), st1)"
    and ff: "format_fields E (fst (get_site_key_order E st)) kvs = Inr kvs'"
    and dumps: "json_dumps E (JObj kvs') = Some out"
    and st': "st' = (snd (get_site_key_order E st1))\<lparr>cached_data := Some (JObj kvs')\<rparr>"
    using run by (rule format_data_Inr)
  obtain ko where ko: "fst (get_site_key_order E st) = Inr ko"
    using ff by (cases "fst (get_site_key_order E st)")
      (auto simp: format_fields_def split: sum.splits option.splits json.splits if_splits)
  then have "fst (get_site_key_order E st1) = Inr ko"
    using get_site_key_order_loaded(1) [OF gd] by simp
  then have K1: "get_site_key_order E st1 = (Inr ko, snd (get_site_key_order E st1))"
    by (metis prod.collapse)
  have c2: "cached_data st2 = Some (JObj kvs')" using st2(1) st' by simp
  have "cached_schema st2 = cached_schema (snd (get_site_key_order E st1))" using st2(2) st' by simp
  then have K2: "get_site_key_order E st2 = (Inr ko, st2)"
    using get_site_key_order_cached [OF K1] by simp
  have form: "st2 = st2\<lparr>cached_data := Some (JObj kvs')\<rparr>" using c2 by simp
  have idem: "format_fields E (fst (get_site_key_order E st2)) kvs' = Inr kvs'"
    using ff ko K2 by (simp add: format_fields_idem)
  have "fst (format_data E st2) = Inr out"
    using format_data_update_result [where E = E and st = st2 and kvs = kvs'] form idem dumps by simp
  moreover have "snd (format_data E st2) = st2"
    using format_data_update_Inr [OF idem] form K2 by simp
  ultimately show ?thesis by (metis prod.collapse)
qed

section \<open>Examples\<close>

lemmas format_defs =
  format_data_def format_string_array_def format_sites_def set_data_item_def get_data_def
  get_schema_def get_site_key_order_def site_schema_properties_def sort_array_alphabetically_def
  sort_sites_by_name_def py_sorted_def site_name_key_def py_str_def format_site_def
  sort_site_headers_def reorder_site_keys_def key_defs

lemmas example_state_defs =
  loaded_example_def example_dataset_def example_schema_def formatted_example_def
  bare_example_def example_defs ascii_lower_def

text \<open>
  The end-to-end scenario: authors \<open>a, b\<close>, categories \<open>x, y\<close>, the sites in the order
  Alpha, Zeta, and the headers of Zeta in the order \<open>a, b\<close>.
\<close>

lemma format_data_example:
  "format_data (ascii_runtime example_loads) loaded_example =
     (Inr (show_json formatted_example), loaded_example\<lparr>cached_data := Some formatted_example\<rparr>)"
  by (simp add: format_defs example_state_defs)

section \<open>Unknown site keys\<close>

lemma format_site_unknown:
  "k \<in> fst ` set kvf \<Longrightarrow> k \<notin> set ko \<Longrightarrow> format_site E (JObj kvf) ko = Inl WMNFormatError"
  by (auto simp: format_site_JObj)

lemma format_site_JObj_Inl: "format_site E (JObj kvf) ko = Inl e \<Longrightarrow> e = WMNFormatError"
  by (auto simp: format_site_JObj sort_site_headers_JObj split: if_splits)

lemma format_fields_unknown:
  assumes sites: "map_of kvs SITES_KEY = Some (JArr sites)" "list_all is_JObj sites"
    and bad: "JObj kvf \<in> set sites" "k \<in> fst ` set kvf" "k \<notin> set ko"
  shows "format_fields E (Inr ko) kvs = Inl WMNFormatError"
proof (cases "string_array_step E AUTHORS_KEY kvs")
  case (Inl e)
  then show ?thesis by (simp add: format_fields_def string_array_step_Inl)
next
  case s1: (Inr kvs1)
  show ?thesis
  proof (cases "string_array_step E CATEGORIES_KEY kvs1")
    case (Inl e)
    then show ?thesis using s1 by (simp add: format_fields_def string_array_step_Inl)
  next
    case s2: (Inr kvs2)
    have sites2: "map_of kvs2 SITES_KEY = Some (JArr sites)"
      using string_array_step_other [OF s1, of SITES_KEY] string_array_step_other [OF s2, of SITES_KEY]
        sites(1) by (simp add: key_defs)
    let ?sorted = "sort_key (site_key E) sites"
    have "map_exn (\<lambda>site. format_site E site ko) ?sorted = Inl WMNFormatError"
    proof (cases "map_exn (\<lambda>site. format_site E site ko) ?sorted")
      case (Inl e)
      then obtain x where x: "x \<in> set ?sorted" "format_site E x ko = Inl e"
        by (blast dest: map_exn_Inl_first)
      then have "is_JObj x" using sites(2) by (simp add: list_all_iff)
      then obtain f where "x = JObj f" by (cases x) auto
      then have "e = WMNFormatError" using x(2) by (simp add: format_site_JObj_Inl)
      then show ?thesis using Inl by simp
    next
      case (Inr formatted)
      have "JObj kvf \<in> set ?sorted" using bad(1) by simp
      then have "\<exists>y. format_site E (JObj kvf) ko = Inr y"
        using Inr by (rule map_exn_Inr_all [rotated])
      then show ?thesis using format_site_unknown [OF bad(2,3)] by simp
    qed
    then show ?thesis using s1 s2 sites2 sites(2) by (simp add: format_fields_def)
  qed
qed

text \<open>
  Claim C3. Let the dataset be an object whose \<^verbatim>\<open>sites\<close> is an array of objects, and let
  the schema declare a site-property order. If some site has a field name that is not in
  the declared order, \<^verbatim>\<open>format_data\<close> raises a \<^verbatim>\<open>WMNFormatError\<close>, and \<^verbatim>\<open>format_file\<close>
  called with this formatter raises it as well and writes nothing: the disk and the log
  of writes are as they were.
\<close>

theorem format_data_unknown_key:
  assumes data: "fst (get_data E st) = Inr (JObj kvs)"
    and sites: "map_of kvs SITES_KEY = Some (JArr sites)" "list_all is_JObj sites"
    and order: "fst (get_site_key_order E st) = Inr key_order"
    and bad: "JObj kvf \<in> set sites" "k \<in> fst ` set kvf" "k \<notin> set key_order"
  shows "fst (format_data E st) = Inl WMNFormatError \<and>
         fst (format_file E (format_data E) raw_data file_path st) = Inl WMNFormatError \<and>
         disk (snd (format_file E (format_data E) raw_data file_path st)) = disk st \<and>
         write_log (snd (format_file E (format_data E) raw_data file_path st)) = write_log st"
proof -
  obtain st1 where gd: "get_data E st = (Inr (JObj kvs), st1)" using data by (metis prod.collapse)
  have c: "st1 = st1\<lparr>cached_data := Some (JObj kvs)\<rparr>"
    using get_data_JObj_cached [OF gd] by simp
  have "fst (get_site_key_order E st1) = Inr key_order"
    using order get_site_key_order_loaded(1) [OF gd] by simp
  then have "format_fields E (fst (get_site_key_order E st1)) kvs = Inl WMNFormatError"
    using format_fields_unknown [OF sites bad] by simp
  then have "fst (format_data E st1) = Inl WMNFormatError"
    using format_data_update_result [where E = E and st = st1 and kvs = kvs] c by simp
  then have raised: "fst (format_data E st) = Inl WMNFormatError"
    using format_data_loaded [OF gd] by simp
  obtain st' where run: "format_data E st = (Inl WMNFormatError, st')"
    using raised by (metis prod.collapse)
  have "format_file E (format_data E) raw_data file_path st = (Inl WMNFormatError, st')"
    using run by (simp add: format_file_def)
  then show ?thesis using raised format_data_frame(1,2) [OF run] by simp
qed

theorem format_data_unknown_key_witness:
  "fst (format_data (ascii_runtime example_loads)
      (loaded_example\<lparr>cached_data := Some stray_key_dataset\<rparr>)) = Inl WMNFormatError \<and>
   fst (format_file (ascii_runtime example_loads) (format_data (ascii_runtime example_loads)) ''{}''
      DEFAULT_DATA (loaded_example\<lparr>cached_data := Some stray_key_dataset\<rparr>)) = Inl WMNFormatError \<and>
   write_log (snd (format_file (ascii_runtime example_loads) (format_data (ascii_runtime example_loads)) ''{}''
      DEFAULT_DATA (loaded_example\<lparr>cached_data := Some stray_key_dataset\<rparr>))) = []"
proof -
  let ?R = "ascii_runtime example_loads"
  let ?st = "loaded_example\<lparr>cached_data := Some stray_key_dataset\<rparr>"
  let ?site = "[(''name'', JStr ''Alpha''), (''colour'', JStr ''red'')]"
  have data: "fst (get_data ?R ?st) =
      Inr (JObj [(''authors'', JArr [JStr ''a'']), (''categories'', JArr [JStr ''x'']),
                 (''sites'', JArr [JObj ?site])])"
    by (simp add: get_data_def stray_key_dataset_def)
  have sites: "map_of [(''authors'', JArr [JStr ''a'']), (''categories'', JArr [JStr ''x'']),
                 (''sites'', JArr [JObj ?site])] SITES_KEY = Some (JArr [JObj ?site])"
    "list_all is_JObj [JObj ?site]"
    by (simp_all add: key_defs)
  have order: "fst (get_site_key_order ?R ?st) = Inr [''name'', ''headers'']"
    by (simp add: format_defs example_state_defs)
  have bad: "JObj ?site \<in> set [JObj ?site]" "''colour'' \<in> fst ` set ?site"
    "''colour'' \<notin> set [''name'', ''headers'']"
    by simp_all
  have "write_log ?st = []" by (simp add: example_state_defs)
  then show ?thesis
    using format_data_unknown_key [OF data sites order bad, of "''{}''" DEFAULT_DATA] by simp
qed

section \<open>Idempotence\<close>

text \<open>
  A dataset of the data model is formatted without an error: an object whose authors and
  categories are non-empty arrays of non-blank strings and whose sites are objects with
  declared keys only, where the schema declares an order and the result serializes.
\<close>

lemma format_data_returns:
  assumes data: "fst (get_data E st) = Inr (JObj kvs)"
    and authors: "map_of kvs AUTHORS_KEY = Some (JArr a)" "a \<noteq> []" "list_all (nonblank_str E) a"
    and categories: "map_of kvs CATEGORIES_KEY = Some (JArr c)" "c \<noteq> []" "list_all (nonblank_str E) c"
    and sites: "map_of kvs SITES_KEY = Some (JArr sites)" "list_all is_JObj sites"
    and order: "fst (get_site_key_order E st) = Inr ko"
    and conform: "\<And>kvf. JObj kvf \<in> set sites \<Longrightarrow> fst ` set kvf \<subseteq> set ko"
    and serial: "\<And>v. json_dumps E v \<noteq> None"
  shows "\<exists>out. fst (format_data E st) = Inr out"
proof -
  obtain st1 where gd: "get_data E st = (Inr (JObj kvs), st1)" using data by (metis prod.collapse)
  have c: "st1 = st1\<lparr>cached_data := Some (JObj kvs)\<rparr>"
    using get_data_JObj_cached [OF gd] by simp
  have ko1: "fst (get_site_key_order E st1) = Inr ko"
    using order get_site_key_order_loaded(1) [OF gd] by simp
  let ?kvs1 = "AList.update AUTHORS_KEY (JArr (sort_key (item_key E) a)) kvs"
  let ?kvs2 = "AList.update CATEGORIES_KEY (JArr (sort_key (item_key E) c)) ?kvs1"
  have s1: "string_array_step E AUTHORS_KEY kvs = Inr ?kvs1"
    using authors by (simp add: string_array_step_def)
  have "map_of ?kvs1 CATEGORIES_KEY = Some (JArr c)"
    using categories(1) by (simp add: AList.update_conv' key_defs)
  then have s2: "string_array_step E CATEGORIES_KEY ?kvs1 = Inr ?kvs2"
    using categories(2,3) by (simp add: string_array_step_def)
  have s3: "map_of ?kvs2 SITES_KEY = Some (JArr sites)"
    using sites(1) by (simp add: AList.update_conv' key_defs)
  have each: "\<exists>y. format_site E x ko = Inr y" if "x \<in> set (sort_key (site_key E) sites)" for x
  proof -
    have "x \<in> set sites" using that by simp
    moreover from this have "is_JObj x" using sites(2) by (simp add: list_all_iff)
    then obtain kvf where x: "x = JObj kvf" by (cases x) auto
    ultimately have "fst ` set kvf \<subseteq> set ko" using conform by simp
    then show ?thesis using x by (simp add: format_site_JObj sort_site_headers_JObj)
  qed
  have "\<exists>formatted. map_exn (\<lambda>site. format_site E site ko) (sort_key (site_key E) sites) = Inr formatted"
  proof (cases "map_exn (\<lambda>site. format_site E site ko) (sort_key (site_key E) sites)")
    case (Inl e)
    then show ?thesis using each by (fastforce dest: map_exn_Inl_first)
  next
    case (Inr formatted)
    then show ?thesis by blast
  qed
  then obtain formatted where
    fm: "map_exn (\<lambda>site. format_site E site ko) (sort_key (site_key E) sites) = Inr formatted"
    by blast
  have "format_fields E (fst (get_site_key_order E st1)) kvs =
      Inr (AList.update SITES_KEY (JArr formatted) ?kvs2)"
    using s1 s2 s3 sites(2) ko1 fm by (simp add: format_fields_def)
  then have "\<exists>out. fst (format_data E st1) = Inr out"
    using format_data_update_result [where E = E and st = st1 and kvs = kvs] c serial
    by (auto split: option.splits)
  then show ?thesis using format_data_loaded [OF gd] by simp
qed

text \<open>
  Claim C1. Under a fixed schema, whenever \<^verbatim>\<open>format_data\<close> returns a text, and parsing
  that text gives back the structure that was serialized, formatting the parse of the
  text (the text stored as the raw data, the parsed cache cleared, as the setter of
  \<^verbatim>\<open>data_raw\<close> does) returns the same text, character for character.
\<close>

theorem format_data_idempotent:
  assumes run: "format_data E st = (Inr out, st')"
    and roundtrip: "json_loads E out = cached_data st'"
  shows "format_data E (set_data_raw (Some out) st') =
           (Inr out, st'\<lparr>cached_data_raw := Some out\<rparr>)"
proof -
  obtain kvs kvs' st1 where
    st': "st' = (snd (get_site_key_order E st1))\<lparr>cached_data := Some (JObj kvs')\<rparr>"
    using run by (rule format_data_Inr)
  then have c: "cached_data st' = Some (JObj kvs')" by simp
  let ?st2 = "st'\<lparr>cached_data_raw := Some out\<rparr>"
  have "get_data E (set_data_raw (Some out) st') = (Inr (JObj kvs'), ?st2)"
    using roundtrip c by (simp add: get_data_def set_data_raw_def get_data_raw_def parse_json_data_def)
  then have "format_data E (set_data_raw (Some out) st') = format_data E ?st2"
    by (rule format_data_loaded)
  moreover have "format_data E ?st2 = (Inr out, ?st2)"
    using run by (rule format_data_again) simp_all
  ultimately show ?thesis by simp
qed

theorem format_data_idempotent_witness:
  "json_loads (ascii_runtime example_loads) (show_json formatted_example) = Some formatted_example \<and>
   fst (format_data (ascii_runtime example_loads)
     (set_data_raw (Some (show_json formatted_example))
        (loaded_example\<lparr>cached_data := Some formatted_example\<rparr>))) = Inr (show_json formatted_example)"
proof -
  let ?R = "ascii_runtime example_loads"
  let ?st' = "loaded_example\<lparr>cached_data := Some formatted_example\<rparr>"
  have roundtrip: "json_loads ?R (show_json formatted_example) = cached_data ?st'"
    by (simp add: ascii_runtime_def example_loads_def)
  show ?thesis
    using format_data_idempotent [OF format_data_example roundtrip] roundtrip by simp
qed

section \<open>The order of sites and of their keys\<close>

text \<open>What a run of \<^verbatim>\<open>format_data\<close> that returns did to the sites.\<close>

lemma format_data_sites:
  assumes run: "format_data E st = (Inr out, st')"
  obtains kvs sites ko kvs' sites' where
    "fst (get_data E st) = Inr (JObj kvs)" "map_of kvs SITES_KEY = Some (JArr sites)"
    "list_all is_JObj sites" "sort_sites_by_name E sites = Inr (sort_key (site_key E) sites)"
    "fst (get_site_key_order E st) = Inr ko"
    "map_exn (\<lambda>site. format_site E site ko) (sort_key (site_key E) sites) = Inr sites'"
    "cached_data st' = Some (JObj kvs')" "json_dumps E (JObj kvs') = Some out"
    "map_of kvs' SITES_KEY = Some (JArr sites')"
proof -
  obtain kvs kvs' st1 where gd: "get_data E st = (Inr (JObj kvs), st1)"
    and ff: "format_fields E (fst (get_site_key_order E st)) kvs = Inr kvs'"
    and dumps: "json_dumps E (JObj kvs') = Some out"
    and st': "st' = (snd (get_site_key_order E st1))\<lparr>cached_data := Some (JObj kvs')\<rparr>"
    using run by (rule format_data_Inr)
  obtain ko where ko: "fst (get_site_key_order E st) = Inr ko"
    using ff by (cases "fst (get_site_key_order E st)")
      (auto simp: format_fields_def split: sum.splits option.splits json.splits if_splits)
  obtain a c sites formatted where
    s: "map_of kvs SITES_KEY = Some (JArr sites)" "list_all is_JObj sites"
      "map_exn (\<lambda>site. format_site E site ko) (sort_key (site_key E) sites) = Inr formatted"
    and kvs': "kvs' = AList.update SITES_KEY (JArr formatted)
       (AList.update CATEGORIES_KEY (JArr (sort_key (item_key E) c))
         (AList.update AUTHORS_KEY (JArr (sort_key (item_key E) a)) kvs))"
    using ff ko by (auto elim: format_fields_Inr)
  have "map_of kvs' SITES_KEY = Some (JArr formatted)" by (simp add: kvs' AList.update_conv')
  then show ?thesis
    using that [of kvs sites ko formatted kvs'] gd s ko dumps st' sort_sites_JObj [OF s(2)]
    by simp
qed

text \<open>
  Claim C5. Let the schema's declared site-property order be duplicate-free, as the keys
  of a \<^verbatim>\<open>dict\<close> are. In the output of \<^verbatim>\<open>format_data\<close> (the serialization of the
  structure the run leaves in the cache), the sites are, one for one, the objects made of
  the name-sorted input sites, and the sequence of the field names of each is the
  declared order restricted to the names present in that site; it has exactly the field
  names of the input site it was made of, so no declared key absent from the site is
  added.
\<close>

theorem format_data_key_order:
  assumes run: "format_data E st = (Inr out, st')"
    and order: "fst (get_site_key_order E st) = Inr key_order"
    and keys: "distinct key_order"
  shows "\<exists>kvs sites sorted_sites kvs' sites'.
     fst (get_data E st) = Inr (JObj kvs) \<and> map_of kvs SITES_KEY = Some (JArr sites) \<and>
     sort_sites_by_name E sites = Inr sorted_sites \<and>
     cached_data st' = Some (JObj kvs') \<and> json_dumps E (JObj kvs') = Some out \<and>
     map_of kvs' SITES_KEY = Some (JArr sites') \<and>
     list_all2 (\<lambda>site site'. \<exists>kvf kvf'. site = JObj kvf \<and> site' = JObj kvf' \<and>
         map fst kvf' = filter (\<lambda>k. k \<in> fst ` set kvf') key_order \<and>
         fst ` set kvf' = fst ` set kvf) sorted_sites sites'"
proof -
  obtain kvs sites ko kvs' sites' where
    gd: "fst (get_data E st) = Inr (JObj kvs)" and s: "map_of kvs SITES_KEY = Some (JArr sites)"
    and all: "list_all is_JObj sites"
    and sorted: "sort_sites_by_name E sites = Inr (sort_key (site_key E) sites)"
    and ko: "fst (get_site_key_order E st) = Inr ko"
    and fm: "map_exn (\<lambda>site. format_site E site ko) (sort_key (site_key E) sites) = Inr sites'"
    and out: "cached_data st' = Some (JObj kvs')" "json_dumps E (JObj kvs') = Some out"
      "map_of kvs' SITES_KEY = Some (JArr sites')"
    using run by (rule format_data_sites)
  have ko_eq: "ko = key_order" using ko order by simp
  have rel: "list_all2 (\<lambda>x y. format_site E x key_order = Inr y) (sort_key (site_key E) sites) sites'"
    using fm ko_eq by (simp add: map_exn_list_all2)
  have each: "\<exists>kvf kvf'. x = JObj kvf \<and> y = JObj kvf' \<and>
      map fst kvf' = filter (\<lambda>k. k \<in> fst ` set kvf') key_order \<and> fst ` set kvf' = fst ` set kvf"
    if xin: "x \<in> set (sort_key (site_key E) sites)" and fx: "format_site E x key_order = Inr y"
    for x y
  proof -
    have "is_JObj x" using all xin by (simp add: list_all_iff)
    then obtain kvf where x: "x = JObj kvf" by (cases x) auto
    have fx': "format_site E (JObj kvf) key_order = Inr y" using fx x by simp
    obtain kvf' where y: "y = JObj kvf'"
      and order': "map fst kvf' = filter (\<lambda>k. k \<in> fst ` set kvf) key_order"
      using format_site_keys [OF fx' keys] by blast
    have sub: "fst ` set kvf \<subseteq> set key_order"
      using fx' by (auto elim: format_site_Inr)
    have "set (map fst kvf') = fst ` set kvf" using order' sub by auto
    then have same: "fst ` set kvf' = fst ` set kvf" by simp
    then show ?thesis using x y order' by simp
  qed
  have "list_all2 (\<lambda>site site'. \<exists>kvf kvf'. site = JObj kvf \<and> site' = JObj kvf' \<and>
         map fst kvf' = filter (\<lambda>k. k \<in> fst ` set kvf') key_order \<and>
         fst ` set kvf' = fst ` set kvf) (sort_key (site_key E) sites) sites'"
    using rel by (rule list.rel_mono_strong) (use each in blast)
  then show ?thesis using gd s sorted out by blast
qed

text \<open>
  Claim C4. In the output of \<^verbatim>\<open>format_data\<close> the sort keys of the sites, each the
  casefolded \<^verbatim>\<open>str\<close> of the site's \<^verbatim>\<open>name\<close> with the empty string for a missing name,
  are in ascending order. The output sites are, one for one and with unchanged sort keys,
  the formatted sites of the sorted input, and the sorted input keeps the input order of
  the sites of every one sort key: the sort is stable.
\<close>

theorem format_data_sites_sorted:
  assumes run: "format_data E st = (Inr out, st')"
  shows "(\<exists>kvs sites sorted_sites key_order kvs' sites' keys.
     fst (get_data E st) = Inr (JObj kvs) \<and> map_of kvs SITES_KEY = Some (JArr sites) \<and>
     sort_sites_by_name E sites = Inr sorted_sites \<and>
     (\<forall>key. filter (\<lambda>site. site_name_key E site = Inr key) sorted_sites =
            filter (\<lambda>site. site_name_key E site = Inr key) sites) \<and>
     map_exn (\<lambda>site. format_site E site key_order) sorted_sites = Inr sites' \<and>
     map (site_name_key E) sites' = map (site_name_key E) sorted_sites \<and>
     cached_data st' = Some (JObj kvs') \<and> json_dumps E (JObj kvs') = Some out \<and>
     map_of kvs' SITES_KEY = Some (JArr sites') \<and>
     map_exn (site_name_key E) sites' = Inr keys \<and> sorted keys) \<and>
   (\<forall>kvf. site_name_key E (JObj kvf) =
      Inr (casefold E (case map_of kvf NAME_KEY of None \<Rightarrow> [] | Some v \<Rightarrow> py_str E v)))"
proof -
  obtain kvs sites ko kvs' sites' where
    gd: "fst (get_data E st) = Inr (JObj kvs)" and s: "map_of kvs SITES_KEY = Some (JArr sites)"
    and all: "list_all is_JObj sites"
    and sorted: "sort_sites_by_name E sites = Inr (sort_key (site_key E) sites)"
    and fm: "map_exn (\<lambda>site. format_site E site ko) (sort_key (site_key E) sites) = Inr sites'"
    and out: "cached_data st' = Some (JObj kvs')" "json_dumps E (JObj kvs') = Some out"
      "map_of kvs' SITES_KEY = Some (JArr sites')"
    using run by (rule format_data_sites)
  let ?sorted = "sort_key (site_key E) sites"
  have sorted_all: "list_all is_JObj ?sorted" using all by (simp add: list_all_iff)
  note f = formatted_sites [OF sorted_all fm]
  have key_of: "site_name_key E site = Inr key \<longleftrightarrow> site_key E site = key"
    if "site \<in> set sites" for site key
    using all that by (auto simp: list_all_iff site_name_key_JObj)
  have stable: "filter (\<lambda>site. site_name_key E site = Inr key) ?sorted =
      filter (\<lambda>site. site_name_key E site = Inr key) sites" for key
  proof -
    have "filter (\<lambda>site. site_name_key E site = Inr key) ?sorted =
        filter (\<lambda>site. site_key E site = key) ?sorted"
      using key_of by (intro filter_cong) auto
    also have "\<dots> = filter (\<lambda>site. site_key E site = key) sites" by (rule sort_key_stable)
    also have "\<dots> = filter (\<lambda>site. site_name_key E site = Inr key) sites"
      using key_of by (intro filter_cong) auto
    finally show ?thesis .
  qed
  have "map (site_name_key E) ?sorted = map Inr (map (site_key E) ?sorted)"
    using sorted_all by (simp add: list_all_iff site_name_key_JObj)
  then have keys: "map_exn (site_name_key E) sites' = Inr (map (site_key E) ?sorted)"
    using f(2) by (simp add: map_exn_Inr_iff)
  have missing: "site_name_key E (JObj kvf) =
      Inr (casefold E (case map_of kvf NAME_KEY of None \<Rightarrow> [] | Some v \<Rightarrow> py_str E v))" for kvf
    by (simp add: site_name_key_def py_str_def split: option.splits)
  have "\<exists>kvs sites sorted_sites key_order kvs' sites' keys.
     fst (get_data E st) = Inr (JObj kvs) \<and> map_of kvs SITES_KEY = Some (JArr sites) \<and>
     sort_sites_by_name E sites = Inr sorted_sites \<and>
     (\<forall>key. filter (\<lambda>site. site_name_key E site = Inr key) sorted_sites =
            filter (\<lambda>site. site_name_key E site = Inr key) sites) \<and>
     map_exn (\<lambda>site. format_site E site key_order) sorted_sites = Inr sites' \<and>
     map (site_name_key E) sites' = map (site_name_key E) sorted_sites \<and>
     cached_data st' = Some (JObj kvs') \<and> json_dumps E (JObj kvs') = Some out \<and>
     map_of kvs' SITES_KEY = Some (JArr sites') \<and>
     map_exn (site_name_key E) sites' = Inr keys \<and> sorted keys"
    using gd s sorted stable fm f(2) out keys sorted_sort_key [of "site_key E" sites] by blast
  then show ?thesis using missing by blast
qed

lemma order_example: "fst (get_site_key_order (ascii_runtime example_loads) loaded_example) = Inr [''name'', ''headers'']"
  by (simp add: format_defs example_state_defs)

theorem format_data_key_order_witness:
  "distinct [''name'', ''headers''] \<and>
   (\<exists>sorted_sites sites'.
      map_of [(''authors'', JArr [JStr ''a'', JStr ''b'']),
              (''categories'', JArr [JStr ''x'', JStr ''y'']),
              (''sites'', JArr [
                 JObj [(''name'', JStr ''Alpha''), (''headers'', JObj [])],
                 JObj [(''name'', JStr ''Zeta''), (''headers'', JObj [(''a'', JStr ''1''), (''b'', JStr ''2'')])]])]
        SITES_KEY = Some (JArr sites') \<and>
      list_all2 (\<lambda>site site'. \<exists>kvf kvf'. site = JObj kvf \<and> site' = JObj kvf' \<and>
         map fst kvf' = filter (\<lambda>k. k \<in> fst ` set kvf') [''name'', ''headers''] \<and>
         fst ` set kvf' = fst ` set kvf) sorted_sites sites')"
proof -
  have keys: "distinct [''name'', ''headers'']" by simp
  have c: "cached_data (loaded_example\<lparr>cached_data := Some formatted_example\<rparr>) =
      Some (JObj [(''authors'', JArr [JStr ''a'', JStr ''b'']),
              (''categories'', JArr [JStr ''x'', JStr ''y'']),
              (''sites'', JArr [
                 JObj [(''name'', JStr ''Alpha''), (''headers'', JObj [])],
                 JObj [(''name'', JStr ''Zeta''), (''headers'', JObj [(''a'', JStr ''1''), (''b'', JStr ''2'')])]])])"
    by (simp add: formatted_example_def)
  show ?thesis
    using format_data_key_order [OF format_data_example order_example keys] keys
    unfolding c by blast
qed

theorem format_data_sites_sorted_witness:
  "map_exn (site_name_key (ascii_runtime example_loads))
      [JObj [(''name'', JStr ''Alpha''), (''headers'', JObj [])],
       JObj [(''name'', JStr ''Zeta''), (''headers'', JObj [(''a'', JStr ''1''), (''b'', JStr ''2'')])]] =
     Inr [''alpha'', ''zeta''] \<and>
   sorted [''alpha'', ''zeta'']"
proof -
  have c: "cached_data (loaded_example\<lparr>cached_data := Some formatted_example\<rparr>) =
      Some (JObj [(''authors'', JArr [JStr ''a'', JStr ''b'']),
              (''categories'', JArr [JStr ''x'', JStr ''y'']),
              (''sites'', JArr [
                 JObj [(''name'', JStr ''Alpha''), (''headers'', JObj [])],
                 JObj [(''name'', JStr ''Zeta''), (''headers'', JObj [(''a'', JStr ''1''), (''b'', JStr ''2'')])]])])"
    by (simp add: formatted_example_def)
  have keys: "map_exn (site_name_key (ascii_runtime example_loads))
      [JObj [(''name'', JStr ''Alpha''), (''headers'', JObj [])],
       JObj [(''name'', JStr ''Zeta''), (''headers'', JObj [(''a'', JStr ''1''), (''b'', JStr ''2'')])]] =
     Inr [''alpha'', ''zeta'']"
    by (simp add: site_name_key_def py_str_def key_defs ascii_runtime_def ascii_lower_def)
  obtain sites' keys' where "map_of [(''authors'', JArr [JStr ''a'', JStr ''b'']),
              (''categories'', JArr [JStr ''x'', JStr ''y'']),
              (''sites'', JArr [
                 JObj [(''name'', JStr ''Alpha''), (''headers'', JObj [])],
                 JObj [(''name'', JStr ''Zeta''), (''headers'', JObj [(''a'', JStr ''1''), (''b'', JStr ''2'')])]])]
        SITES_KEY = Some (JArr sites')"
    and "map_exn (site_name_key (ascii_runtime example_loads)) sites' = Inr keys'" and "sorted keys'"
    using format_data_sites_sorted [OF format_data_example] unfolding c by blast
  then have "sorted [''alpha'', ''zeta'']" using keys by (simp add: key_defs)
  then show ?thesis using keys by blast
qed

section \<open>Writing only what changed\<close>

lemma write_file_content_data_path:
  assumes "write_file_content E (data_path st) c st = (Inr u, st')"
  shows "st' = st\<lparr>disk := (disk st)(data_path st := Text c),
                  write_log := write_log st @ [(data_path st, c)],
                  cached_data_raw := Some c, cached_data := None\<rparr>"
  using assms
  by (auto simp: write_file_content_def write_text_def Let_def
      split: option.splits write_error.splits if_splits)

lemma get_data_raw_cached: "cached_data_raw st = Some raw \<Longrightarrow> get_data_raw st = (Inr raw, st)"
  by (simp add: get_data_raw_def)

lemma get_data_raw_Inr:
  "get_data_raw st = (Inr raw, st0) \<Longrightarrow>
   cached_data_raw st0 = Some raw \<and> st0 = st\<lparr>cached_data_raw := Some raw\<rparr>"
  by (auto simp: get_data_raw_def split: option.splits sum.splits)

lemma get_data_keeps_raw:
  "get_data E st = (r, st1) \<Longrightarrow> cached_data_raw st = Some raw \<Longrightarrow> cached_data_raw st1 = Some raw"
  by (auto simp: get_data_def get_data_raw_def split: option.splits sum.splits prod.splits)

lemma format_data_keeps_raw:
  assumes run: "format_data E st = (Inr out, st')" and raw: "cached_data_raw st = Some raw"
  shows "cached_data_raw st' = Some raw"
proof -
  obtain kvs kvs' st1 where gd: "get_data E st = (Inr (JObj kvs), st1)"
    and st': "st' = (snd (get_site_key_order E st1))\<lparr>cached_data := Some (JObj kvs')\<rparr>"
    using run by (rule format_data_Inr)
  have "cached_data_raw st1 = Some raw" using gd raw by (rule get_data_keeps_raw)
  moreover have "cached_data_raw (snd (get_site_key_order E st1)) = cached_data_raw st1"
    using get_site_key_order_state [OF prod.collapse [symmetric], of E st1]
    by (metis (no_types, lifting) wmn.select_convs(5) wmn.surjective wmn.update_convs(4) wmn.update_convs(6))
  ultimately show ?thesis using st' by simp
qed

lemma format_file_Inr_False:
  "format_file E formatter raw p st = (Inr False, st1) \<Longrightarrow> formatter st = (Inr raw, st1)"
  by (auto simp: format_file_def split: prod.splits sum.splits if_splits)

lemma format_file_Inr_True:
  "format_file E formatter raw p st = (Inr True, st2) \<Longrightarrow>
   \<exists>text st1 u. formatter st = (Inr text, st1) \<and> text \<noteq> raw \<and>
     write_file_content E p text st1 = (Inr u, st2)"
  by (auto simp: format_file_def split: prod.splits sum.splits if_splits)

lemma format_file_unchanged:
  "formatter st = (Inr raw, st1) \<Longrightarrow> format_file E formatter raw p st = (Inr False, st1)"
  by (simp add: format_file_def)

lemmas run_defs =
  format_data_file_def format_file_def get_data_raw_def get_schema_raw_def read_file_content_def
  parse_json_data_def write_file_content_def write_text_def on_disk_def example_loads_def

lemma canonical_first_call:
  "fst (format_data_file (ascii_runtime example_loads) (on_disk formatted_example)) = Inr False"
  "write_log (snd (format_data_file (ascii_runtime example_loads) (on_disk formatted_example))) = []"
  by (simp_all add: run_defs format_defs example_state_defs)

lemma canonical_text:
  "fst (format_data (ascii_runtime example_loads) (on_disk formatted_example)) = Inr (show_json formatted_example)"
  by (simp add: run_defs format_defs example_state_defs)

lemma unformatted_first_call:
  "fst (format_data_file (ascii_runtime example_loads) (on_disk example_dataset)) = Inr True"
  "write_log (snd (format_data_file (ascii_runtime example_loads) (on_disk example_dataset))) =
     [(DEFAULT_DATA, show_json formatted_example)]"
  by (simp_all add: run_defs format_defs example_state_defs)

lemma unformatted_run:
  "format_data (ascii_runtime example_loads) (snd (get_data_raw (on_disk example_dataset))) =
     (Inr (show_json formatted_example),
      snd (format_data (ascii_runtime example_loads) (snd (get_data_raw (on_disk example_dataset)))))"
  "cached_data (snd (format_data (ascii_runtime example_loads) (snd (get_data_raw (on_disk example_dataset))))) =
     Some formatted_example"
  by (simp_all add: run_defs format_defs example_state_defs)

text \<open>
  Claim C8 as stated fails: on a file that is already canonical (formatting it returns the
  text the file holds) the first call of \<^verbatim>\<open>format_file\<close> reports unchanged and writes
  nothing, so two calls in a row write zero times, not once.
\<close>

theorem format_file_canonical_counterexample:
  "disk (on_disk formatted_example) (data_path (on_disk formatted_example)) =
     Text (show_json formatted_example) \<and>
   fst (format_data (ascii_runtime example_loads) (on_disk formatted_example)) =
     Inr (show_json formatted_example) \<and>
   fst (format_data_file (ascii_runtime example_loads) (on_disk formatted_example)) = Inr False \<and>
   write_log (snd (format_data_file (ascii_runtime example_loads) (on_disk formatted_example))) = []"
proof -
  have "disk (on_disk formatted_example) (data_path (on_disk formatted_example)) =
      Text (show_json formatted_example)"
    by (simp add: on_disk_def WMNBase_init_def DEFAULT_DATA_def DEFAULT_SCHEMA_def)
  then show ?thesis using canonical_first_call canonical_text by blast
qed

text \<open>
  Claim C8, amended. In general, when the formatter returns a text, \<^verbatim>\<open>format_file\<close>
  reports unchanged and leaves the state as the formatter left it if the text equals the
  previous raw text; if it differs, it writes the text to the path and reports changed,
  or raises the \<^verbatim>\<open>WMNFileError\<close> of a write that failed, having logged no write.
  Calling it twice in a row as \<^verbatim>\<open>main\<close> does: when the first call reports unchanged (the
  file was already canonical) nothing was written, and the second call reports unchanged
  and changes nothing; when the first call reports changed, it wrote exactly once, to the
  data path, and, where parsing the written text gives back the structure that was
  serialized, the second call reports unchanged and writes nothing.
\<close>

theorem format_file_write_skip:
  "(\<forall>new_text st1 r st2.
      formatter st = (Inr new_text, st1) \<and> format_file E formatter raw_data file_path st = (r, st2) \<longrightarrow>
        (if new_text = raw_data then r = Inr False \<and> st2 = st1
         else (r = Inr True \<and> write_log st2 = write_log st1 @ [(file_path, new_text)] \<and>
               disk st2 = (disk st1)(file_path := Text new_text)) \<or>
              (r = Inl WMNFileError \<and> write_log st2 = write_log st1))) \<and>
   (\<forall>st1. format_data_file E st = (Inr False, st1) \<longrightarrow>
      write_log st1 = write_log st \<and> format_data_file E st1 = (Inr False, st1)) \<and>
   (\<forall>st2. format_data_file E st = (Inr True, st2) \<and>
          (\<forall>out st1. format_data E (snd (get_data_raw st)) = (Inr out, st1) \<longrightarrow>
             json_loads E out = cached_data st1) \<longrightarrow>
      (\<exists>out st3. write_log st2 = write_log st @ [(data_path st, out)] \<and>
         format_data_file E st2 = (Inr False, st3) \<and> write_log st3 = write_log st2))"
proof (intro conjI allI impI)
  fix new_text st1 r st2
  assume a: "formatter st = (Inr new_text, st1) \<and> format_file E formatter raw_data file_path st = (r, st2)"
  show "if new_text = raw_data then r = Inr False \<and> st2 = st1
         else (r = Inr True \<and> write_log st2 = write_log st1 @ [(file_path, new_text)] \<and>
               disk st2 = (disk st1)(file_path := Text new_text)) \<or>
              (r = Inl WMNFileError \<and> write_log st2 = write_log st1)"
  proof (cases "new_text = raw_data")
    case True
    then show ?thesis using a by (auto simp: format_file_def)
  next
    case False
    obtain w st3 where w: "write_file_content E file_path new_text st1 = (w, st3)"
      by (cases "write_file_content E file_path new_text st1")
    show ?thesis
    proof (cases w)
      case (Inl e)
      then show ?thesis using a False w write_file_content_Inl(1,2) [of E file_path new_text st1 e st3]
        by (auto simp: format_file_def)
    next
      case (Inr u)
      then show ?thesis using a False w write_file_content_Inr(1,2) [of E file_path new_text st1 u st3]
        by (auto simp: format_file_def)
    qed
  qed
next
  fix st1
  assume a: "format_data_file E st = (Inr False, st1)"
  obtain raw st0 where raw: "get_data_raw st = (Inr raw, st0)"
    and ff: "format_file E (format_data E) raw (data_path st0) st0 = (Inr False, st1)"
    using a by (auto simp: format_data_file_def split: prod.splits sum.splits)
  have run: "format_data E st0 = (Inr raw, st1)" using ff by (rule format_file_Inr_False)
  have st0: "cached_data_raw st0 = Some raw" "st0 = st\<lparr>cached_data_raw := Some raw\<rparr>"
    using get_data_raw_Inr [OF raw] by simp_all
  have "write_log st1 = write_log st0" using run by (rule format_data_frame)
  then show "write_log st1 = write_log st" using st0(2) by (metis wmn.select_convs(8) wmn.surjective wmn.update_convs(5))
  have "cached_data_raw st1 = Some raw" using run st0(1) by (rule format_data_keeps_raw)
  then have raw1: "get_data_raw st1 = (Inr raw, st1)" by (rule get_data_raw_cached)
  have "format_data E st1 = (Inr raw, st1)" using run by (rule format_data_again) simp_all
  then have "format_file E (format_data E) raw (data_path st1) st1 = (Inr False, st1)"
    by (rule format_file_unchanged)
  then show "format_data_file E st1 = (Inr False, st1)" using raw1 by (simp add: format_data_file_def)
next
  fix st2
  assume a: "format_data_file E st = (Inr True, st2) \<and>
          (\<forall>out st1. format_data E (snd (get_data_raw st)) = (Inr out, st1) \<longrightarrow>
             json_loads E out = cached_data st1)"
  obtain raw st0 where raw: "get_data_raw st = (Inr raw, st0)"
    and ff: "format_file E (format_data E) raw (data_path st0) st0 = (Inr True, st2)"
    using a by (auto simp: format_data_file_def split: prod.splits sum.splits)
  obtain out st1 u where run: "format_data E st0 = (Inr out, st1)"
    and w: "write_file_content E (data_path st0) out st1 = (Inr u, st2)"
    using format_file_Inr_True [OF ff] by blast
  have roundtrip: "json_loads E out = cached_data st1" using a raw run by simp
  have st0: "st0 = st\<lparr>cached_data_raw := Some raw\<rparr>" using get_data_raw_Inr [OF raw] by simp
  have frame: "write_log st1 = write_log st0" "data_path st1 = data_path st0"
    using format_data_frame [OF run] by simp_all
  have p: "data_path st0 = data_path st" "write_log st0 = write_log st"
    using st0 by (metis wmn.select_convs wmn.surjective wmn.update_convs)+
  have st2: "st2 = st1\<lparr>disk := (disk st1)(data_path st1 := Text out),
                  write_log := write_log st1 @ [(data_path st1, out)],
                  cached_data_raw := Some out, cached_data := None\<rparr>"
    using write_file_content_data_path [of E st1 out u st2] w frame(2) by simp
  obtain kvs' where c1: "cached_data st1 = Some (JObj kvs')"
    using run by (auto elim: format_data_Inr)
  let ?st3 = "st2\<lparr>cached_data := Some (JObj kvs')\<rparr>"
  have raw2: "get_data_raw st2 = (Inr out, st2)" using st2 by (simp add: get_data_raw_def)
  have "get_data E st2 = (Inr (JObj kvs'), ?st3)"
    using st2 roundtrip c1 by (simp add: get_data_def get_data_raw_def parse_json_data_def)
  then have "format_data E st2 = format_data E ?st3" by (rule format_data_loaded)
  moreover have "format_data E ?st3 = (Inr out, ?st3)"
    using run by (rule format_data_again) (simp_all add: st2 c1)
  ultimately have "format_file E (format_data E) out (data_path st2) st2 = (Inr False, ?st3)"
    by (simp add: format_file_unchanged)
  then have "format_data_file E st2 = (Inr False, ?st3)" using raw2 by (simp add: format_data_file_def)
  moreover have "write_log st2 = write_log st @ [(data_path st, out)]"
    using st2 frame p by simp
  moreover have "write_log ?st3 = write_log st2" by simp
  ultimately show "\<exists>out st3. write_log st2 = write_log st @ [(data_path st, out)] \<and>
         format_data_file E st2 = (Inr False, st3) \<and> write_log st3 = write_log st2"
    by blast
qed

theorem format_file_write_skip_witness:
  "fst (format_data_file (ascii_runtime example_loads) (on_disk formatted_example)) = Inr False \<and>
   format_data_file (ascii_runtime example_loads)
      (snd (format_data_file (ascii_runtime example_loads) (on_disk formatted_example))) =
     (Inr False, snd (format_data_file (ascii_runtime example_loads) (on_disk formatted_example))) \<and>
   write_log (snd (format_data_file (ascii_runtime example_loads) (on_disk formatted_example))) =
     write_log (on_disk formatted_example) \<and>
   fst (format_data_file (ascii_runtime example_loads) (on_disk example_dataset)) = Inr True \<and>
   write_log (snd (format_data_file (ascii_runtime example_loads) (on_disk example_dataset))) =
     [(DEFAULT_DATA, show_json formatted_example)] \<and>
   (\<exists>st3. format_data_file (ascii_runtime example_loads)
        (snd (format_data_file (ascii_runtime example_loads) (on_disk example_dataset))) = (Inr False, st3) \<and>
      write_log st3 = [(DEFAULT_DATA, show_json formatted_example)])"
proof -
  let ?R = "ascii_runtime example_loads"
  let ?st = "on_disk formatted_example"
  let ?un = "on_disk example_dataset"
  have first: "format_data_file ?R ?st = (Inr False, snd (format_data_file ?R ?st))"
    using canonical_first_call(1) by (metis prod.collapse)
  have canonical: "format_data_file ?R (snd (format_data_file ?R ?st)) =
      (Inr False, snd (format_data_file ?R ?st)) \<and>
    write_log (snd (format_data_file ?R ?st)) = write_log ?st"
    using format_file_write_skip [of "format_data ?R" ?st ?R "[]" "[]"] first by blast
  have changed: "format_data_file ?R ?un = (Inr True, snd (format_data_file ?R ?un))"
    using unformatted_first_call(1) by (metis prod.collapse)
  have roundtrip: "\<forall>out st1. format_data ?R (snd (get_data_raw ?un)) = (Inr out, st1) \<longrightarrow>
      json_loads ?R out = cached_data st1"
  proof (intro allI impI)
    fix out st1
    assume "format_data ?R (snd (get_data_raw ?un)) = (Inr out, st1)"
    then have "out = show_json formatted_example" "cached_data st1 = Some formatted_example"
      using unformatted_run by simp_all
    then show "json_loads ?R out = cached_data st1"
      by (simp add: ascii_runtime_def example_loads_def)
  qed
  have "\<exists>out st3. write_log (snd (format_data_file ?R ?un)) = write_log ?un @ [(data_path ?un, out)] \<and>
      format_data_file ?R (snd (format_data_file ?R ?un)) = (Inr False, st3) \<and>
      write_log st3 = write_log (snd (format_data_file ?R ?un))"
    using format_file_write_skip [of "format_data ?R" ?un ?R "[]" "[]"] changed roundtrip by blast
  then have second: "\<exists>st3. format_data_file ?R (snd (format_data_file ?R ?un)) = (Inr False, st3) \<and>
      write_log st3 = [(DEFAULT_DATA, show_json formatted_example)]"
    using unformatted_first_call(2) by auto
  show ?thesis
    using canonical_first_call(1) canonical unformatted_first_call second by blast
qed

section \<open>A schema without a usable declaration\<close>

text \<open>
  Claim C7 asks for a \<^verbatim>\<open>WMNSchemaError\<close> for every schema without an extractable
  declaration. For a schema whose \<^verbatim>\<open>items\<close> is an array of schemas,
  \<^verbatim>\<open>_get_site_key_order\<close> calls \<^verbatim>\<open>get\<close> on the array and
  raises an \<^verbatim>\<open>AttributeError\<close>; so does \<^verbatim>\<open>format_data\<close> on the example dataset, and
  \<^verbatim>\<open>format_file\<close> turns it into a \<^verbatim>\<open>WMNFormatError\<close>.
\<close>

theorem get_site_key_order_tuple_items:
  "fst (get_site_key_order E (st\<lparr>cached_schema := Some tuple_items_schema\<rparr>)) = Inl AttributeError \<and>
   fst (format_data (ascii_runtime example_loads)
          (loaded_example\<lparr>cached_schema := Some tuple_items_schema\<rparr>)) = Inl AttributeError \<and>
   fst (format_file (ascii_runtime example_loads) (format_data (ascii_runtime example_loads))
          raw_data file_path (loaded_example\<lparr>cached_schema := Some tuple_items_schema\<rparr>)) =
     Inl WMNFormatError"
proof -
  have "fst (get_site_key_order E (st\<lparr>cached_schema := Some tuple_items_schema\<rparr>)) = Inl AttributeError"
    by (simp add: get_site_key_order_def get_schema_def site_schema_properties_def key_defs
        tuple_items_schema_def)
  moreover have run: "fst (format_data (ascii_runtime example_loads)
          (loaded_example\<lparr>cached_schema := Some tuple_items_schema\<rparr>)) = Inl AttributeError"
    by (simp add: format_defs example_state_defs tuple_items_schema_def)
  moreover have "fst (format_file (ascii_runtime example_loads) (format_data (ascii_runtime example_loads))
          raw_data file_path (loaded_example\<lparr>cached_schema := Some tuple_items_schema\<rparr>)) =
     Inl WMNFormatError"
  proof -
    obtain st' where "format_data (ascii_runtime example_loads)
        (loaded_example\<lparr>cached_schema := Some tuple_items_schema\<rparr>) = (Inl AttributeError, st')"
      using run by (metis prod.collapse)
    then show ?thesis by (simp add: format_file_def)
  qed
  ultimately show ?thesis by blast
qed

text \<open>
  Where every value on the way to the declaration is an object, a declaration that is
  missing, \<^verbatim>\<open>null\<close> or not an object is a \<^verbatim>\<open>WMNSchemaError\<close>.
\<close>

lemma get_site_key_order_schema_error:
  assumes "get_schema E st = (Inr schema, st1)"
    and "dict_get schema PROPERTIES_KEY (JObj []) = Inr a"
    and "dict_get a SITES_KEY (JObj []) = Inr b"
    and "dict_get b ITEMS_KEY (JObj []) = Inr c"
    and "dict_get c PROPERTIES_KEY JNull = Inr decl"
    and "\<not> is_JObj decl"
  shows "get_site_key_order E st = (Inl WMNSchemaError, st1)"
  using assms
  by (cases decl) (auto simp: get_site_key_order_def site_schema_properties_def)

end
